theory Spec2Isabelle
  imports Complex_Main
begin

section \<open>Conventions of the embedding\<close>

text \<open>
  The program computes with IEEE double precision floats. The embedding computes with
  the real numbers: the rounding of a result and the silent overflow of a sum, a
  product or a quotient to an infinity are not modelled. What is modelled is every
  place where the floats change what the program raises or returns as an error:
  \<^item> a division of Python scalars by zero raises \<open>ZeroDivisionError\<close>;
  \<^item> a power \<open>x ** k\<close> of Python scalars raises \<open>OverflowError\<close> when it leaves the
    range of the doubles and is \<open>0.0\<close> when it falls below the smallest double;
  \<^item> a division of numpy values by zero returns \<open>inf\<close> or \<open>nan\<close> and only prints a
    warning.
  Printing is not modelled.
\<close>

datatype py_error =
  ZeroDivisionError | OverflowError | UnboundLocalError | ValueError | IndexError

text \<open>Python's \<open>int(x)\<close> on a float truncates towards zero.\<close>

definition py_int :: "real \<Rightarrow> int" where
  "py_int x = (if 0 \<le> x then \<lfloor>x\<rfloor> else \<lceil>x\<rceil>)"

text \<open>
  The power \<open>x ** k\<close> of a Python float and a positive Python integer. Rounded to the
  nearest double, a real number of magnitude \<open>2 ^ 1024 - 2 ^ 970\<close> or more is beyond the
  largest double, and one of magnitude \<open>2 ^ - 1075\<close> or less is zero.
\<close>

definition float_overflow :: real where
  "float_overflow = 2 ^ 1024 - 2 ^ 970"

definition float_underflow :: real where
  "float_underflow = 1 / 2 ^ 1075"

definition py_float_pow :: "real \<Rightarrow> int \<Rightarrow> py_error + real" where
  "py_float_pow x k =
     (let y = x ^ nat k
      in if float_overflow \<le> \<bar>y\<bar> then Inl OverflowError
         else if \<bar>y\<bar> \<le> float_underflow then Inr 0
         else Inr y)"

section \<open>The Bond class\<close>

text \<open>
  The fields \<open>n\<close> and \<open>t\<close> of the class are called \<open>self_n\<close> and \<open>self_t\<close>, the way
  the methods read them (\<open>self.n\<close>, \<open>self.t\<close>).
\<close>

record bond =
  years_to_maturity :: real
  self_n :: int
  self_t :: real
  price :: real
  coupon :: real
  call_price :: real
  face_value :: real
  num_coupon_periods :: int

definition Bond_init :: "real \<Rightarrow> real \<Rightarrow> real \<Rightarrow> real \<Rightarrow> real \<Rightarrow> real \<Rightarrow> int \<Rightarrow> bond" where
  "Bond_init pr cpn cp fv tc ym ncp =
     \<lparr> years_to_maturity = ym,
       self_n = py_int (ym * real_of_int ncp),
       self_t = tc,
       price = pr,
       coupon = cpn,
       call_price = cp,
       face_value = fv,
       num_coupon_periods = ncp \<rparr>"

subsection \<open>The pricing residuals\<close>

text \<open>
  \<open>f_ytm\<close> and \<open>f_ytc\<close> are applied to the numpy array \<open>x1\<close>: the arithmetic is
  elementwise, so each is a \<open>map\<close> of the expression at one candidate yield. The
  coupon \<open>C\<close> of \<open>f_ytm\<close> is computed first, on Python scalars, and raises when
  \<open>num_coupon_periods\<close> is zero. The array expressions divide by the candidate and by
  powers of one plus the candidate; both are applied to the grid only, whose entries
  are positive.
\<close>

definition f_ytm_at :: "bond \<Rightarrow> real \<Rightarrow> real" where
  "f_ytm_at self ytm =
     (let C = (coupon self * 0.01 * face_value self) / real_of_int (num_coupon_periods self)
      in ((C * (1 - (1 / ((1 + ytm) powi (self_n self))))) / ytm)
         + (face_value self / ((1 + ytm) powi (self_n self))) - price self)"

definition f_ytm :: "bond \<Rightarrow> real list \<Rightarrow> py_error + real list" where
  "f_ytm self ytm =
     (if num_coupon_periods self = 0 then Inl ZeroDivisionError
      else Inr (map (f_ytm_at self) ytm))"

definition f_ytc_at :: "bond \<Rightarrow> real \<Rightarrow> real" where
  "f_ytc_at self ytc =
     (let C = coupon self * 0.01 * face_value self
      in (C / 2) * ((1 - (1 + ytc / 2) powr (- (2 * self_t self))) / (ytc / 2))
         + call_price self / ((1 + ytc / 2) powr (2 * self_t self)) - price self)"

definition f_ytc :: "bond \<Rightarrow> real list \<Rightarrow> real list" where
  "f_ytc self ytc = map (f_ytc_at self) ytc"

subsection \<open>calculate_yields\<close>

text \<open>\<open>numpy.arange(start, stop, step)\<close>: \<open>ceil((stop - start) / step)\<close> values \<open>start + k * step\<close>.\<close>

definition arange :: "real \<Rightarrow> real \<Rightarrow> real \<Rightarrow> real list" where
  "arange start stop step =
     map (\<lambda>k. start + real k * step) [0..<nat \<lceil>(stop - start) / step\<rceil>]"

definition x1 :: "real list" where
  "x1 = arange 0.0001 1.0 0.0001"

text \<open>One pass of the search loop, on the pair \<open>(initial_ytm, initial_ytc)\<close>.\<close>

definition yields_step :: "real list \<Rightarrow> real list \<Rightarrow> nat \<Rightarrow> nat \<times> nat \<Rightarrow> nat \<times> nat" where
  "yields_step y1 y2 i s =
     (let initial_ytm = fst s; initial_ytc = snd s
      in (if \<bar>y1 ! initial_ytm\<bar> > \<bar>y1 ! i\<bar> then i else initial_ytm,
          if \<bar>y2 ! initial_ytc\<bar> > \<bar>y2 ! i\<bar> then i else initial_ytc))"

definition yields_loop :: "real list \<Rightarrow> real list \<Rightarrow> nat \<times> nat" where
  "yields_loop y1 y2 = fold (yields_step y1 y2) [0..<length y1] (0, 0)"

definition calculate_yields :: "bond \<Rightarrow> py_error + (real \<times> real \<times> real)" where
  "calculate_yields self =
     (case f_ytm self x1 of
        Inl e \<Rightarrow> Inl e
      | Inr y1 \<Rightarrow>
          (let y2 = f_ytc self x1;
               s = yields_loop y1 y2;
               ytm = real_of_int (num_coupon_periods self) * x1 ! (fst s);
               ytc = x1 ! (snd s);
               ytw = min ytm ytc
           in Inr (ytm, ytc, ytw)))"

subsection \<open>calculate_durations\<close>

text \<open>
  The loop \<open>for t in range(1, self.n + 1, 1)\<close> on the state \<open>(pv, t)\<close>. The loop variable
  \<open>t\<close> is read after the loop, so the state records whether it was ever bound. The
  power and the division are those of Python scalars: the power raises when it
  overflows, and the division raises on a zero divisor. So do the power and the divisions
  after the loop, with \<open>ytm\<close> a Python float; in \<open>calculate_bond_analytics\<close>, where
  \<open>ytm\<close> is a numpy float, the last divisor is one plus a candidate of the grid and
  never zero.
\<close>

fun durations_loop :: "real \<Rightarrow> real \<Rightarrow> int list \<Rightarrow> real \<times> int option \<Rightarrow> py_error + (real \<times> int option)" where
  "durations_loop c i [] s = Inr s"
| "durations_loop c i (t # ts) s =
     (case py_float_pow (1 + i) t of
        Inl e \<Rightarrow> Inl e
      | Inr p \<Rightarrow>
          if p = 0 then Inl ZeroDivisionError
          else durations_loop c i ts (fst s + ((real_of_int t * c) / p), Some t))"

definition calculate_durations :: "bond \<Rightarrow> real \<Rightarrow> py_error + (real \<times> real)" where
  "calculate_durations self ytm =
     (let i = coupon self * 0.01;
          c = coupon self * 0.01 * face_value self
      in case durations_loop c i [1..self_n self] (0, None) of
           Inl e \<Rightarrow> Inl e
         | Inr (pv, None) \<Rightarrow> Inl UnboundLocalError
         | Inr (pv, Some t) \<Rightarrow>
             (case py_float_pow (1 + i) t of
                Inl e \<Rightarrow> Inl e
              | Inr p \<Rightarrow>
                  if p = 0 \<or> price self = 0 then Inl ZeroDivisionError
                  else
                    let macaulay_duration =
                          (pv + ((real_of_int (self_n self) * face_value self) / p)) / price self
                    in if num_coupon_periods self = 0
                          \<or> 1 + ytm / real_of_int (num_coupon_periods self) = 0
                       then Inl ZeroDivisionError
                       else Inr (macaulay_duration,
                                 macaulay_duration
                                   / (1 + ytm / real_of_int (num_coupon_periods self)))))"

subsection \<open>calculate_bond_analytics\<close>

definition calculate_bond_analytics :: "bond \<Rightarrow> py_error + (real \<times> real \<times> real \<times> real \<times> real)" where
  "calculate_bond_analytics self =
     (case calculate_yields self of
        Inl e \<Rightarrow> Inl e
      | Inr (ytm, ytc, ytw) \<Rightarrow>
          (case calculate_durations self ytm of
             Inl e \<Rightarrow> Inl e
           | Inr (macaulay_duration, modified_duration) \<Rightarrow>
               Inr (ytm, ytc, ytw, macaulay_duration, modified_duration)))"

section \<open>Portfolio analytics\<close>

subsection \<open>numpy floats\<close>

text \<open>
  A numpy float is a real number, an infinity or \<open>nan\<close>. The operations follow
  IEEE 754 on the special values; a zero is taken as positive. None of them raises:
  numpy prints a \<open>RuntimeWarning\<close> and returns the special value.
\<close>

datatype npfloat = Finite real | PosInf | NegInf | NaN

fun np_neg :: "npfloat \<Rightarrow> npfloat" where
  "np_neg (Finite x) = Finite (- x)"
| "np_neg PosInf = NegInf"
| "np_neg NegInf = PosInf"
| "np_neg NaN = NaN"

fun np_add :: "npfloat \<Rightarrow> npfloat \<Rightarrow> npfloat" where
  "np_add NaN b = NaN"
| "np_add a NaN = NaN"
| "np_add (Finite x) (Finite y) = Finite (x + y)"
| "np_add PosInf NegInf = NaN"
| "np_add NegInf PosInf = NaN"
| "np_add PosInf b = PosInf"
| "np_add NegInf b = NegInf"
| "np_add (Finite x) b = b"

definition np_sub :: "npfloat \<Rightarrow> npfloat \<Rightarrow> npfloat" where
  "np_sub a b = np_add a (np_neg b)"

text \<open>The sign of a value other than \<open>nan\<close>: negative or not.\<close>

fun np_negative :: "npfloat \<Rightarrow> bool" where
  "np_negative (Finite x) = (x < 0)"
| "np_negative NegInf = True"
| "np_negative b = False"

definition np_inf :: "bool \<Rightarrow> npfloat" where
  "np_inf negative = (if negative then NegInf else PosInf)"

fun np_mul :: "npfloat \<Rightarrow> npfloat \<Rightarrow> npfloat" where
  "np_mul NaN b = NaN"
| "np_mul a NaN = NaN"
| "np_mul (Finite x) (Finite y) = Finite (x * y)"
| "np_mul (Finite x) b = (if x = 0 then NaN else np_inf (np_negative (Finite x) \<noteq> np_negative b))"
| "np_mul a (Finite y) = (if y = 0 then NaN else np_inf (np_negative a \<noteq> np_negative (Finite y)))"
| "np_mul a b = np_inf (np_negative a \<noteq> np_negative b)"

fun np_div :: "npfloat \<Rightarrow> npfloat \<Rightarrow> npfloat" where
  "np_div NaN b = NaN"
| "np_div a NaN = NaN"
| "np_div (Finite x) (Finite y) =
     (if y = 0 then (if x = 0 then NaN else np_inf (x < 0)) else Finite (x / y))"
| "np_div (Finite x) b = Finite 0"
| "np_div a (Finite y) = np_inf (np_negative a \<noteq> np_negative (Finite y))"
| "np_div a b = NaN"

fun np_sqrt :: "npfloat \<Rightarrow> npfloat" where
  "np_sqrt (Finite x) = (if x < 0 then NaN else Finite (sqrt x))"
| "np_sqrt PosInf = PosInf"
| "np_sqrt NegInf = NaN"
| "np_sqrt NaN = NaN"

text \<open>\<open>numpy.mean\<close> of a one-dimensional array: \<open>nan\<close> on the empty array.\<close>

definition np_mean :: "real list \<Rightarrow> npfloat" where
  "np_mean xs = (if xs = [] then NaN else Finite (sum_list xs / real (length xs)))"

subsection \<open>Matrices and numpy.dot\<close>

text \<open>
  A two-dimensional array is the list of its rows; \<open>shape[0]\<close> is the number of rows
  and \<open>shape[1]\<close> the length of a row. The arrays handed to the functions are
  rectangular.
\<close>

definition shape0 :: "real list list \<Rightarrow> nat" where
  "shape0 m = length m"

definition shape1 :: "real list list \<Rightarrow> nat" where
  "shape1 m = (case m of [] \<Rightarrow> 0 | r # rs \<Rightarrow> length r)"

text \<open>
  \<open>numpy.dot\<close> of a vector of length \<open>N\<close> and an \<open>N\<close> by \<open>T\<close> matrix is the vector of
  length \<open>T\<close> of the sums over the rows; other shapes raise \<open>ValueError\<close>.
\<close>

definition dot_vec_mat :: "real list \<Rightarrow> real list list \<Rightarrow> py_error + real list" where
  "dot_vec_mat v m =
     (if length v \<noteq> shape0 m then Inl ValueError
      else Inr (map (\<lambda>t. sum_list (map (\<lambda>i. v ! i * m ! i ! t) [0..<length v]))
                  [0..<shape1 m]))"

definition dot_vec_vec :: "real list \<Rightarrow> real list \<Rightarrow> real" where
  "dot_vec_vec u v = sum_list (map (\<lambda>i. u ! i * v ! i) [0..<length u])"

subsection \<open>portfolio_returns\<close>

definition portfolio_returns :: "real list list \<Rightarrow> real list \<Rightarrow> py_error + real list" where
  "portfolio_returns returns weights = dot_vec_mat weights returns"

subsection \<open>portfolio_volatility\<close>

text \<open>
  \<open>numpy.cov\<close> of an \<open>N\<close> by \<open>T\<close> matrix whose rows are the variables, with its
  defaults: the rows are centred on their means, multiplied with their transpose and
  scaled by \<open>1 / (T - 1)\<close>. This is the matrix for \<open>T\<close> at least 2; with fewer columns
  numpy's entries are \<open>nan\<close>, which \<open>portfolio_volatility\<close> below accounts for.
\<close>

definition np_cov :: "real list list \<Rightarrow> real list list" where
  "np_cov m =
     (let T = shape1 m;
          X = map (\<lambda>r. map (\<lambda>x. x - sum_list r / real T) r) m
      in map (\<lambda>ri. map (\<lambda>rj. sum_list (map (\<lambda>t. ri ! t * rj ! t) [0..<T]) * (1 / (real T - 1))) X) X)"

text \<open>
  \<open>portfolio_volatility\<close> multiplies the weights, the covariance matrix and the
  column of the weights, and reads entry \<open>0\<close> of the result. What numpy does outside
  the matching shapes:
  \<^item> with no row, \<open>numpy.cov\<close> is the empty 0 by 0 matrix: the first product raises
    \<open>ValueError\<close> unless there is no weight either, and then the result of the second
    product is a scalar, which cannot be indexed;
  \<^item> with one row, \<open>numpy.cov\<close> is squeezed to a scalar, and the first product
    multiplies every weight by it, whatever their number;
  \<^item> with fewer than two columns the scaling factor is \<open>1 / 0\<close> and every entry of the
    covariance matrix is \<open>nan\<close>.
\<close>

definition portfolio_volatility :: "real list list \<Rightarrow> real list \<Rightarrow> py_error + npfloat" where
  "portfolio_volatility returns weights =
     (let covariance = np_cov returns
      in if weights = [] then
           (if shape0 returns \<le> 1 then Inl IndexError else Inl ValueError)
         else if shape0 returns = 1 then
           (if shape1 returns \<le> 1 then Inr NaN
            else Inr (Finite (dot_vec_vec (map (\<lambda>w. w * covariance ! 0 ! 0) weights) weights)))
         else
           (case dot_vec_mat weights covariance of
              Inl e \<Rightarrow> Inl e
            | Inr wc \<Rightarrow>
                if shape1 returns \<le> 1 then Inr NaN
                else Inr (Finite (dot_vec_vec wc weights))))"

subsection \<open>sharpe_ratio\<close>

definition sharpe_ratio :: "real list \<Rightarrow> real \<Rightarrow> real list list \<Rightarrow> real list \<Rightarrow> py_error + npfloat" where
  "sharpe_ratio port_returns risk_free_rate asset_returns weights =
     (case portfolio_volatility asset_returns weights of
        Inl e \<Rightarrow> Inl e
      | Inr v \<Rightarrow>
          (let portfolio_standard_deviation = np_sqrt v
           in Inr (np_div (np_sub (np_mean port_returns) (Finite risk_free_rate))
                          portfolio_standard_deviation)))"

subsection \<open>risk_metrics\<close>

text \<open>
  The functions of \<open>scipy.stats\<close> and \<open>scipy.integrate\<close> that \<open>risk_metrics\<close> calls are
  not part of the program: they are parameters of the model. Each is taken to return a
  float for every argument (scipy's distributions return \<open>nan\<close> outside their domain).
  \<^item> \<open>quad_norm_pdf mu sigma var_p\<close> is
    \<open>integrate.quad(lambda y: stats.norm(mu, sigma).pdf(y), -np.inf, var_p)\<close>;
  \<^item> \<open>quad_t_pdf d var_p\<close> is \<open>integrate.quad(lambda y: stats.t(d).pdf(y), -np.inf, var_p)\<close>;
  \<^item> \<open>norm_pdf\<close> and \<open>norm_ppf\<close> are \<open>stats.norm.pdf\<close> and \<open>stats.norm.ppf\<close>;
  \<^item> \<open>t_pdf d\<close> and \<open>t_ppf d\<close> are \<open>stats.t(d).pdf\<close> and \<open>stats.t(d).ppf\<close>.
\<close>

record scipy =
  quad_norm_pdf :: "npfloat \<Rightarrow> npfloat \<Rightarrow> real \<Rightarrow> npfloat \<times> npfloat"
  quad_t_pdf :: "int \<Rightarrow> real \<Rightarrow> npfloat \<times> npfloat"
  norm_pdf :: "npfloat \<Rightarrow> npfloat"
  norm_ppf :: "real \<Rightarrow> npfloat"
  t_pdf :: "int \<Rightarrow> npfloat \<Rightarrow> npfloat"
  t_ppf :: "int \<Rightarrow> real \<Rightarrow> npfloat"

type_synonym risk_result =
  "npfloat \<times> npfloat \<times> npfloat \<times> npfloat \<times> npfloat \<times> npfloat \<times> npfloat \<times> npfloat \<times> npfloat"

definition risk_metrics ::
  "scipy \<Rightarrow> real list list \<Rightarrow> real list \<Rightarrow> real \<Rightarrow> real \<Rightarrow> int \<Rightarrow> py_error + risk_result" where
  "risk_metrics sp returns weights var_p alpha d =
     (case portfolio_volatility returns weights of
        Inl e \<Rightarrow> Inl e
      | Inr var \<Rightarrow>
          (let sigma = np_sqrt var
           in case portfolio_returns returns weights of
                Inl e \<Rightarrow> Inl e
              | Inr pr \<Rightarrow>
                  (let mu = np_div (Finite (sum_list pr)) (Finite (real (shape1 returns)));
                       a = quad_norm_pdf sp mu sigma var_p;
                       ta = quad_t_pdf sp d var_p;
                       es = np_sub (np_div (np_mul (norm_pdf sp (norm_ppf sp alpha)) sigma)
                                           (Finite alpha)) mu;
                       t_dist_es =
                         np_sub (np_div (np_mul (np_mul (t_pdf sp d (t_ppf sp d alpha)) sigma)
                                                (np_add (Finite (real_of_int d))
                                                        (np_mul (t_ppf sp d alpha) (t_ppf sp d alpha))))
                                        (Finite (alpha * real_of_int (d - 1)))) mu
                   in Inr (var, sigma, mu, fst a, snd a, fst ta, snd ta, es, t_dist_es))))"

subsection \<open>historical_var\<close>

text \<open>
  The counting loop over the indices of \<open>port_returns\<close>, then a division of two Python
  integers, which raises on an empty series.
\<close>

definition historical_var_loop :: "real list \<Rightarrow> real \<Rightarrow> nat" where
  "historical_var_loop port_returns var_p =
     fold (\<lambda>i relevant_returns.
             if port_returns ! i < var_p then relevant_returns + 1 else relevant_returns)
          [0..<length port_returns] 0"

definition historical_var :: "real list \<Rightarrow> real \<Rightarrow> py_error + real" where
  "historical_var port_returns var_p =
     (let relevant_returns = historical_var_loop port_returns var_p
      in if length port_returns = 0 then Inl ZeroDivisionError
         else Inr (real relevant_returns / real (length port_returns)))"

text \<open>
  The sample variance of a series in the words of the specification: the squared
  deviations from the mean, summed and divided by one less than the length.
\<close>

definition sample_variance :: "real list \<Rightarrow> real" where
  "sample_variance xs =
     sum_list (map (\<lambda>x. (x - sum_list xs / real (length xs))\<^sup>2) xs) / (real (length xs) - 1)"

subsection \<open>Valid bonds and the reference formula of the specification\<close>

text \<open>
  A bond as the data model describes it: positive prices and face value, a call date
  that is not after maturity, a positive number of coupon periods per year, the
  derived field set as the constructor sets it, and at least one remaining period.
  The coupon rate is a percentage; it only has to keep the discount factor
  \<open>1 + coupon / 100\<close> positive.
\<close>

definition valid_bond :: "bond \<Rightarrow> bool" where
  "valid_bond self \<longleftrightarrow>
     0 < price self \<and> 0 < face_value self \<and> 0 < call_price self
     \<and> 0 \<le> self_t self \<and> self_t self \<le> years_to_maturity self
     \<and> 0 < num_coupon_periods self
     \<and> self_n self = py_int (years_to_maturity self * real_of_int (num_coupon_periods self))
     \<and> 1 \<le> self_n self
     \<and> - 100 < coupon self"

text \<open>
  The powers \<open>(1 + i) ** t\<close> of the duration loop, for \<open>t\<close> from 1 to the number of
  remaining periods, all stay within the range of the doubles: none overflows and none
  is rounded to zero.
\<close>

definition pow_ok :: "real \<Rightarrow> nat \<Rightarrow> bool" where
  "pow_ok x k \<longleftrightarrow> float_underflow < \<bar>x ^ k\<bar> \<and> \<bar>x ^ k\<bar> < float_overflow"

definition powers_in_range :: "bond \<Rightarrow> bool" where
  "powers_in_range self \<longleftrightarrow>
     (\<forall>t\<in>{1..nat (self_n self)}. pow_ok (1 + coupon self * 0.01) t)"

text \<open>
  The Macaulay Duration in the words of the specification: the coupon of one period is
  the annual coupon payment divided by the number of coupon periods per year, and the
  discount rate is the coupon rate as a fraction.
\<close>

definition macaulay_duration_spec :: "bond \<Rightarrow> real" where
  "macaulay_duration_spec self =
     (let i = coupon self * 0.01;
          periodic_coupon =
            (coupon self * 0.01 * face_value self) / real_of_int (num_coupon_periods self);
          n = nat (self_n self)
      in ((\<Sum>t = 1..n. (real t * periodic_coupon) / ((1 + i) ^ t))
          + (real n * face_value self) / ((1 + i) ^ n)) / price self)"

text \<open>The numerator of the Macaulay Duration as the code accumulates it.\<close>

definition macaulay_sum :: "bond \<Rightarrow> real" where
  "macaulay_sum self =
     (\<Sum>t = 1..nat (self_n self).
         (real t * (coupon self * 0.01 * face_value self)) / ((1 + coupon self * 0.01) ^ t))
     + (real_of_int (self_n self) * face_value self) / ((1 + coupon self * 0.01) ^ nat (self_n self))"

text \<open>An \<open>N\<close> by \<open>T\<close> array: \<open>N\<close> rows of length \<open>T\<close>.\<close>

definition is_matrix :: "nat \<Rightarrow> nat \<Rightarrow> real list list \<Rightarrow> bool" where
  "is_matrix N T m \<longleftrightarrow> length m = N \<and> (\<forall>r\<in>set m. length r = T)"

section \<open>Properties of the Bond class\<close>

subsection \<open>The grid of candidate yields\<close>

lemma length_x1: "length x1 = 9999"
  by (simp add: x1_def arange_def)

lemma nth_x1: "i < 9999 \<Longrightarrow> x1 ! i = real (Suc i) / 10000"
  by (simp add: x1_def arange_def field_simps)

subsection \<open>The search loop keeps the first index of least absolute residual\<close>

lemma fst_yields_step:
  "fst (yields_step y1 y2 i s) = (if \<bar>y1 ! fst s\<bar> > \<bar>y1 ! i\<bar> then i else fst s)"
  by (simp add: yields_step_def Let_def)

lemma snd_yields_step:
  "snd (yields_step y1 y2 i s) = (if \<bar>y2 ! snd s\<bar> > \<bar>y2 ! i\<bar> then i else snd s)"
  by (simp add: yields_step_def Let_def)

lemma yields_scan_fst:
  "fst (fold (yields_step y1 y2) [0..<m] (0, 0)) < max m 1
   \<and> (\<forall>j<m. \<bar>y1 ! fst (fold (yields_step y1 y2) [0..<m] (0, 0))\<bar> \<le> \<bar>y1 ! j\<bar>)"
proof (induction m)
  case 0
  show ?case by simp
next
  case (Suc m)
  let ?s = "fold (yields_step y1 y2) [0..<m] (0, 0)"
  have step: "fold (yields_step y1 y2) [0..<Suc m] (0, 0) = yields_step y1 y2 m ?s"
    by simp
  from Suc.IH have lt: "fst ?s < max m 1" and mn: "\<forall>j<m. \<bar>y1 ! fst ?s\<bar> \<le> \<bar>y1 ! j\<bar>"
    by simp_all
  show ?case
  proof (cases "\<bar>y1 ! fst ?s\<bar> > \<bar>y1 ! m\<bar>")
    case True
    then have eq: "fst (yields_step y1 y2 m ?s) = m" by (simp add: fst_yields_step)
    have "\<forall>j<Suc m. \<bar>y1 ! m\<bar> \<le> \<bar>y1 ! j\<bar>"
      using True mn by (auto simp: less_Suc_eq)
    then show ?thesis unfolding step eq by simp
  next
    case False
    then have eq: "fst (yields_step y1 y2 m ?s) = fst ?s" by (simp add: fst_yields_step)
    have "\<forall>j<Suc m. \<bar>y1 ! fst ?s\<bar> \<le> \<bar>y1 ! j\<bar>"
      using False mn by (auto simp: less_Suc_eq)
    moreover have "fst ?s < max (Suc m) 1" using lt by simp
    ultimately show ?thesis unfolding step eq by simp
  qed
qed

lemma yields_scan_snd:
  "snd (fold (yields_step y1 y2) [0..<m] (0, 0)) < max m 1
   \<and> (\<forall>j<m. \<bar>y2 ! snd (fold (yields_step y1 y2) [0..<m] (0, 0))\<bar> \<le> \<bar>y2 ! j\<bar>)"
proof (induction m)
  case 0
  show ?case by simp
next
  case (Suc m)
  let ?s = "fold (yields_step y1 y2) [0..<m] (0, 0)"
  have step: "fold (yields_step y1 y2) [0..<Suc m] (0, 0) = yields_step y1 y2 m ?s"
    by simp
  from Suc.IH have lt: "snd ?s < max m 1" and mn: "\<forall>j<m. \<bar>y2 ! snd ?s\<bar> \<le> \<bar>y2 ! j\<bar>"
    by simp_all
  show ?case
  proof (cases "\<bar>y2 ! snd ?s\<bar> > \<bar>y2 ! m\<bar>")
    case True
    then have eq: "snd (yields_step y1 y2 m ?s) = m" by (simp add: snd_yields_step)
    have "\<forall>j<Suc m. \<bar>y2 ! m\<bar> \<le> \<bar>y2 ! j\<bar>"
      using True mn by (auto simp: less_Suc_eq)
    then show ?thesis unfolding step eq by simp
  next
    case False
    then have eq: "snd (yields_step y1 y2 m ?s) = snd ?s" by (simp add: snd_yields_step)
    have "\<forall>j<Suc m. \<bar>y2 ! snd ?s\<bar> \<le> \<bar>y2 ! j\<bar>"
      using False mn by (auto simp: less_Suc_eq)
    moreover have "snd ?s < max (Suc m) 1" using lt by simp
    ultimately show ?thesis unfolding step eq by simp
  qed
qed

lemma calculate_yields_result:
  assumes "num_coupon_periods self \<noteq> 0"
  shows "\<exists>i1 i2. i1 < 9999 \<and> i2 < 9999
           \<and> calculate_yields self =
               Inr (real_of_int (num_coupon_periods self) * x1 ! i1, x1 ! i2,
                    min (real_of_int (num_coupon_periods self) * x1 ! i1) (x1 ! i2))
           \<and> (\<forall>j<9999. \<bar>f_ytm_at self (x1 ! i1)\<bar> \<le> \<bar>f_ytm_at self (x1 ! j)\<bar>)
           \<and> (\<forall>j<9999. \<bar>f_ytc_at self (x1 ! i2)\<bar> \<le> \<bar>f_ytc_at self (x1 ! j)\<bar>)"
proof -
  let ?y1 = "map (f_ytm_at self) x1" and ?y2 = "map (f_ytc_at self) x1"
  let ?s = "fold (yields_step ?y1 ?y2) [0..<9999] (0, 0)"
  have a: "fst ?s < 9999" and amin: "\<forall>j<9999. \<bar>?y1 ! fst ?s\<bar> \<le> \<bar>?y1 ! j\<bar>"
    using yields_scan_fst [of ?y1 ?y2 9999] by simp_all
  have b: "snd ?s < 9999" and bmin: "\<forall>j<9999. \<bar>?y2 ! snd ?s\<bar> \<le> \<bar>?y2 ! j\<bar>"
    using yields_scan_snd [of ?y1 ?y2 9999] by simp_all
  have nth1: "\<And>j. j < 9999 \<Longrightarrow> ?y1 ! j = f_ytm_at self (x1 ! j)"
    and nth2: "\<And>j. j < 9999 \<Longrightarrow> ?y2 ! j = f_ytc_at self (x1 ! j)"
    by (simp_all add: length_x1)
  have res: "calculate_yields self =
               Inr (real_of_int (num_coupon_periods self) * x1 ! fst ?s, x1 ! snd ?s,
                    min (real_of_int (num_coupon_periods self) * x1 ! fst ?s) (x1 ! snd ?s))"
    using assms
    by (simp add: calculate_yields_def f_ytm_def f_ytc_def yields_loop_def Let_def length_x1)
  have m1: "\<forall>j<9999. \<bar>f_ytm_at self (x1 ! fst ?s)\<bar> \<le> \<bar>f_ytm_at self (x1 ! j)\<bar>"
    using amin a nth1 by metis
  have m2: "\<forall>j<9999. \<bar>f_ytc_at self (x1 ! snd ?s)\<bar> \<le> \<bar>f_ytc_at self (x1 ! j)\<bar>"
    using bmin b nth2 by metis
  from a b res m1 m2 show ?thesis by blast
qed

subsection \<open>The duration loop\<close>

lemma durations_loop_append:
  "durations_loop c i (xs @ ys) s =
     (case durations_loop c i xs s of Inl e \<Rightarrow> Inl e | Inr s' \<Rightarrow> durations_loop c i ys s')"
  by (induction xs arbitrary: s) (auto split: sum.splits)

lemma py_float_pow_ok:
  assumes "pow_ok x k"
  shows "py_float_pow x (int k) = Inr (x ^ k)" and "x ^ k \<noteq> 0"
proof -
  have lo: "float_underflow < \<bar>x ^ k\<bar>" and hi: "\<bar>x ^ k\<bar> < float_overflow"
    using assms by (simp_all add: pow_ok_def)
  show "py_float_pow x (int k) = Inr (x ^ k)"
    using lo hi by (simp add: py_float_pow_def Let_def)
  have "0 < float_underflow" by (simp add: float_underflow_def)
  with lo have "0 < \<bar>x ^ k\<bar>" by linarith
  then show "x ^ k \<noteq> 0" by (metis abs_zero less_irrefl)
qed

lemma py_float_pow_not_ok:
  assumes "\<not> pow_ok x k"
  shows "py_float_pow x (int k) = Inl OverflowError \<or> py_float_pow x (int k) = Inr 0"
  using assms by (auto simp: pow_ok_def py_float_pow_def Let_def)

lemma durations_loop_upto:
  assumes "\<forall>t\<in>{1..m}. pow_ok (1 + i) t"
  shows "durations_loop c i [1..int m] (0, None) =
           Inr (\<Sum>t = 1..m. (real t * c) / ((1 + i) ^ t), if m = 0 then None else Some (int m))"
  using assms
proof (induction m)
  case 0
  show ?case by simp
next
  case (Suc m)
  have ok: "pow_ok (1 + i) (Suc m)" using Suc.prems by simp
  have ih: "durations_loop c i [1..int m] (0, None) =
           Inr (\<Sum>t = 1..m. (real t * c) / ((1 + i) ^ t), if m = 0 then None else Some (int m))"
    using Suc by simp
  have "[1..int (Suc m)] = [1..int m] @ [int (Suc m)]"
    using upto_rec2 [of 1 "int (Suc m)"] by simp
  then show ?case
    using ih py_float_pow_ok [OF ok] by (simp add: durations_loop_append)
qed

lemma durations_loop_out_of_range:
  assumes "\<not> (\<forall>t\<in>{1..m}. pow_ok (1 + i) t)"
  shows "isl (durations_loop c i [1..int m] (0, None))"
  using assms
proof (induction m)
  case 0
  then show ?case by simp
next
  case (Suc m)
  have split: "[1..int (Suc m)] = [1..int m] @ [int (Suc m)]"
    using upto_rec2 [of 1 "int (Suc m)"] by simp
  show ?case
  proof (cases "\<forall>t\<in>{1..m}. pow_ok (1 + i) t")
    case False
    then have "isl (durations_loop c i [1..int m] (0, None))" by (rule Suc.IH)
    then show ?thesis
      unfolding split durations_loop_append by (auto simp: isl_def)
  next
    case True
    with Suc.prems have "\<not> pow_ok (1 + i) (Suc m)"
      by (auto simp: le_Suc_eq)
    from py_float_pow_not_ok [OF this] show ?thesis
      unfolding split durations_loop_append durations_loop_upto [OF True] by auto
  qed
qed

lemma calculate_durations_in_range:
  assumes "1 \<le> self_n self" and "powers_in_range self"
  shows "calculate_durations self ytm =
           (if price self = 0 \<or> num_coupon_periods self = 0
               \<or> 1 + ytm / real_of_int (num_coupon_periods self) = 0
            then Inl ZeroDivisionError
            else Inr (macaulay_sum self / price self,
                      (macaulay_sum self / price self)
                        / (1 + ytm / real_of_int (num_coupon_periods self))))"
proof -
  let ?i = "coupon self * 0.01" and ?c = "coupon self * 0.01 * face_value self"
  define m where "m = nat (self_n self)"
  have m: "self_n self = int m" and mpos: "m \<noteq> 0"
    using assms(1) by (simp_all add: m_def)
  have ok: "\<forall>t\<in>{1..m}. pow_ok (1 + ?i) t"
    using assms(2) by (simp add: powers_in_range_def m_def)
  then have last: "pow_ok (1 + ?i) m" using mpos by simp
  have loop: "durations_loop ?c ?i [1..int m] (0, None)
              = Inr (\<Sum>t = 1..m. (real t * ?c) / ((1 + ?i) ^ t), Some (int m))"
    using durations_loop_upto [OF ok, of ?c] mpos by (simp only: if_False)
  have pw: "py_float_pow (1 + ?i) (int m) = Inr ((1 + ?i) ^ m)" and nz: "(1 + ?i) ^ m \<noteq> 0"
    using py_float_pow_ok [OF last] by blast+
  have ms: "macaulay_sum self
            = (\<Sum>t = 1..m. (real t * ?c) / ((1 + ?i) ^ t))
              + (real_of_int (int m) * face_value self) / ((1 + ?i) ^ m)"
    by (simp only: macaulay_sum_def m nat_int)
  have "calculate_durations self ytm =
          (if (1 + ?i) ^ m = 0 \<or> price self = 0 then Inl ZeroDivisionError
           else if num_coupon_periods self = 0
                   \<or> 1 + ytm / real_of_int (num_coupon_periods self) = 0
                then Inl ZeroDivisionError
                else Inr (macaulay_sum self / price self,
                          (macaulay_sum self / price self)
                            / (1 + ytm / real_of_int (num_coupon_periods self))))"
    by (simp only: calculate_durations_def Let_def m loop pw ms sum.case prod.case option.case)
  then have "calculate_durations self ytm =
          (if price self = 0 then Inl ZeroDivisionError
           else if num_coupon_periods self = 0
                   \<or> 1 + ytm / real_of_int (num_coupon_periods self) = 0
                then Inl ZeroDivisionError
                else Inr (macaulay_sum self / price self,
                          (macaulay_sum self / price self)
                            / (1 + ytm / real_of_int (num_coupon_periods self))))"
    using nz by (simp only: simp_thms if_False)
  then show ?thesis by (cases "price self = 0") simp_all
qed

lemma calculate_durations_returns:
  assumes "1 \<le> self_n self" and "powers_in_range self" and "price self \<noteq> 0"
    and "num_coupon_periods self \<noteq> 0"
    and "1 + ytm / real_of_int (num_coupon_periods self) \<noteq> 0"
  shows "calculate_durations self ytm =
           Inr (macaulay_sum self / price self,
                (macaulay_sum self / price self) / (1 + ytm / real_of_int (num_coupon_periods self)))"
  unfolding calculate_durations_in_range [OF assms(1,2)] using assms(3,4,5) by simp

lemma calculate_durations_Inr:
  assumes "calculate_durations self ytm = Inr r"
  shows "1 \<le> self_n self \<and> powers_in_range self \<and> price self \<noteq> 0
         \<and> num_coupon_periods self \<noteq> 0
         \<and> 1 + ytm / real_of_int (num_coupon_periods self) \<noteq> 0
         \<and> r = (macaulay_sum self / price self,
                  (macaulay_sum self / price self)
                    / (1 + ytm / real_of_int (num_coupon_periods self)))"
proof -
  let ?i = "coupon self * 0.01" and ?c = "coupon self * 0.01 * face_value self"
  have n: "1 \<le> self_n self"
  proof (rule ccontr)
    assume "\<not> 1 \<le> self_n self"
    then have "[1..self_n self] = []" by simp
    then have "calculate_durations self ytm = Inl UnboundLocalError"
      by (simp add: calculate_durations_def Let_def)
    with assms show False by simp
  qed
  have rng: "powers_in_range self"
  proof (rule ccontr)
    assume "\<not> powers_in_range self"
    then have "\<not> (\<forall>t\<in>{1..nat (self_n self)}. pow_ok (1 + ?i) t)"
      by (simp add: powers_in_range_def)
    then have "isl (durations_loop ?c ?i [1..int (nat (self_n self))] (0, None))"
      by (rule durations_loop_out_of_range)
    moreover have "int (nat (self_n self)) = self_n self" using n by simp
    ultimately have "isl (durations_loop ?c ?i [1..self_n self] (0, None))" by simp
    then obtain e where "durations_loop ?c ?i [1..self_n self] (0, None) = Inl e"
      by (auto simp: isl_def)
    then have "calculate_durations self ytm = Inl e"
      by (simp only: calculate_durations_def Let_def sum.case)
    with assms show False by simp
  qed
  from assms show ?thesis
    unfolding calculate_durations_in_range [OF n rng] using n rng
    by (auto split: if_splits)
qed

text \<open>
  A coupon rate between 0 and 100 percent and at most 1023 remaining periods keep the
  powers between 1 and \<open>2 ^ 1023\<close>.
\<close>

lemma powers_in_range_moderate:
  assumes "0 \<le> coupon self" and "coupon self \<le> 100" and "self_n self \<le> 1023"
  shows "powers_in_range self"
proof -
  let ?x = "1 + coupon self * 0.01"
  have x: "1 \<le> ?x" "?x \<le> 2" using assms(1,2) by simp_all
  have "pow_ok ?x t" if "t \<in> {1..nat (self_n self)}" for t
  proof -
    have "nat (self_n self) \<le> 1023" using assms(3) by (simp add: nat_le_iff)
    with that have t: "t \<le> 1023" by simp
    have ge: "1 \<le> ?x ^ t" using x(1) by (rule one_le_power)
    have "?x ^ t \<le> 2 ^ t" using x by (intro power_mono) simp_all
    also have "\<dots> \<le> (2::real) ^ 1023" using t by (intro power_increasing) simp_all
    finally have le: "?x ^ t \<le> 2 ^ 1023" .
    have "(2::real) ^ 970 < 2 ^ 1023" by (intro power_strict_increasing) simp_all
    moreover have "(2::real) ^ 1024 = 2 ^ 1023 + 2 ^ 1023" by simp
    ultimately have hi: "(2::real) ^ 1023 < float_overflow"
      unfolding float_overflow_def by linarith
    have "0 < (2::real) ^ 1075" by simp
    moreover have "(1::real) \<le> 2 ^ 1075" by (rule one_le_power) simp
    ultimately have lo: "float_underflow \<le> 1"
      by (simp only: float_underflow_def divide_le_eq_1_pos)
    have lo2: "float_underflow < 1"
    proof -
      have "(1::real) < 2 ^ 1075" by (rule one_less_power) simp_all
      then show ?thesis by (simp only: float_underflow_def) (simp add: divide_less_eq)
    qed
    have abs: "\<bar>?x ^ t\<bar> = ?x ^ t" using ge by simp
    show ?thesis
      unfolding pow_ok_def abs using ge le hi lo2 by linarith
  qed
  then show ?thesis by (simp add: powers_in_range_def)
qed

lemma telescoping:
  assumes "1 + (i::real) \<noteq> 0"
  shows "(\<Sum>t = 1..m. (real t * (i * F)) / ((1 + i) ^ t)) + (real m * F) / ((1 + i) ^ m)
         = F * (\<Sum>t<m. (1 / (1 + i)) ^ t)"
proof (induction m)
  case 0
  show ?case by simp
next
  case (Suc m)
  have pw: "(1 + i) ^ m \<noteq> 0" using assms by simp
  have "(real (Suc m) * (i * F)) / ((1 + i) ^ Suc m) + (real (Suc m) * F) / ((1 + i) ^ Suc m)
        = (real (Suc m) * F * (1 + i)) / ((1 + i) ^ Suc m)"
    by (simp add: add_divide_distrib [symmetric] algebra_simps)
  also have "\<dots> = (real (Suc m) * F) / ((1 + i) ^ m)"
    using assms by simp
  also have "\<dots> = (real m * F) / ((1 + i) ^ m) + F * (1 / (1 + i)) ^ m"
    by (simp add: power_divide add_divide_distrib [symmetric] algebra_simps)
  finally have step:
    "(real (Suc m) * (i * F)) / ((1 + i) ^ Suc m) + (real (Suc m) * F) / ((1 + i) ^ Suc m)
       = (real m * F) / ((1 + i) ^ m) + F * (1 / (1 + i)) ^ m" .
  have "(\<Sum>t = 1..Suc m. (real t * (i * F)) / ((1 + i) ^ t)) + (real (Suc m) * F) / ((1 + i) ^ Suc m)
      = (\<Sum>t = 1..m. (real t * (i * F)) / ((1 + i) ^ t))
        + ((real (Suc m) * (i * F)) / ((1 + i) ^ Suc m) + (real (Suc m) * F) / ((1 + i) ^ Suc m))"
    by simp
  also have "\<dots> = ((\<Sum>t = 1..m. (real t * (i * F)) / ((1 + i) ^ t)) + (real m * F) / ((1 + i) ^ m))
        + F * (1 / (1 + i)) ^ m"
    unfolding step by simp
  also have "\<dots> = F * (\<Sum>t<Suc m. (1 / (1 + i)) ^ t)"
    unfolding Suc.IH by (simp add: algebra_simps)
  finally show ?case .
qed

lemma set_x1: "set x1 = (\<lambda>k. real k / 10000) ` {1..9999}"
proof -
  have e: "x1 = map (\<lambda>k. real k / 10000) [1..<10000]"
    by (rule nth_equalityI) (simp_all add: length_x1 nth_x1)
  have "set x1 = (\<lambda>k. real k / 10000) ` set [1..<10000]"
    unfolding e by (simp only: set_map)
  moreover have "set [1..<10000] = {1..9999::nat}" by auto
  ultimately show ?thesis by (simp only:)
qed

lemma x1_bounds:
  assumes "y \<in> set x1"
  shows "0.0001 \<le> y \<and> y \<le> 0.9999"
proof -
  from assms obtain k :: nat where k: "1 \<le> k" "k \<le> 9999" and y: "y = real k / 10000"
    unfolding set_x1 by auto
  have "1 \<le> real k" and "real k \<le> 9999" using k by simp_all
  then show ?thesis unfolding y by simp
qed

lemma macaulay_sum_pos:
  assumes "1 \<le> self_n self" and "- 100 < coupon self" and "0 < face_value self"
  shows "0 < macaulay_sum self"
proof -
  let ?i = "coupon self * 0.01"
  have pos: "0 < 1 + ?i" using assms(2) by simp
  define m where "m = nat (self_n self) - 1"
  have n: "self_n self = int (Suc m)"
    using assms(1) by (simp add: m_def)
  have "macaulay_sum self =
          (\<Sum>t = 1..Suc m. (real t * (?i * face_value self)) / ((1 + ?i) ^ t))
          + (real (Suc m) * face_value self) / ((1 + ?i) ^ Suc m)"
    unfolding macaulay_sum_def n nat_int of_int_of_nat_eq mult.assoc ..
  also have "\<dots> = face_value self * (\<Sum>t<Suc m. (1 / (1 + ?i)) ^ t)"
    using pos by (intro telescoping) simp
  finally have "macaulay_sum self = face_value self * (\<Sum>t<Suc m. (1 / (1 + ?i)) ^ t)" .
  moreover have "0 < (\<Sum>t<Suc m. (1 / (1 + ?i)) ^ t)"
    using pos by (intro sum_pos) auto
  ultimately show ?thesis using assms(3) by simp
qed

text \<open>
  The yields always come from the grid, so whenever the duration loop runs and no
  scalar division meets a zero, the whole computation returns its five numbers.
\<close>

lemma calculate_yields_candidates:
  assumes "num_coupon_periods self \<noteq> 0"
  shows "\<exists>c1 c2. c1 \<in> set x1 \<and> c2 \<in> set x1
           \<and> (\<forall>y\<in>set x1. \<bar>f_ytm_at self c1\<bar> \<le> \<bar>f_ytm_at self y\<bar>)
           \<and> (\<forall>y\<in>set x1. \<bar>f_ytc_at self c2\<bar> \<le> \<bar>f_ytc_at self y\<bar>)
           \<and> calculate_yields self =
               Inr (real_of_int (num_coupon_periods self) * c1, c2,
                    min (real_of_int (num_coupon_periods self) * c1) c2)"
proof -
  from calculate_yields_result [OF assms] obtain i1 i2 where
    i: "i1 < 9999" "i2 < 9999"
    and res: "calculate_yields self =
               Inr (real_of_int (num_coupon_periods self) * x1 ! i1, x1 ! i2,
                    min (real_of_int (num_coupon_periods self) * x1 ! i1) (x1 ! i2))"
    and m1: "\<forall>j<9999. \<bar>f_ytm_at self (x1 ! i1)\<bar> \<le> \<bar>f_ytm_at self (x1 ! j)\<bar>"
    and m2: "\<forall>j<9999. \<bar>f_ytc_at self (x1 ! i2)\<bar> \<le> \<bar>f_ytc_at self (x1 ! j)\<bar>"
    by blast
  have in1: "x1 ! i1 \<in> set x1" and in2: "x1 ! i2 \<in> set x1"
    using i by (simp_all add: length_x1)
  have all1: "\<forall>y\<in>set x1. \<bar>f_ytm_at self (x1 ! i1)\<bar> \<le> \<bar>f_ytm_at self y\<bar>"
    using m1 by (auto simp: in_set_conv_nth length_x1)
  have all2: "\<forall>y\<in>set x1. \<bar>f_ytc_at self (x1 ! i2)\<bar> \<le> \<bar>f_ytc_at self y\<bar>"
    using m2 by (auto simp: in_set_conv_nth length_x1)
  from in1 in2 all1 all2 res show ?thesis by blast
qed

lemma calculate_bond_analytics_returns:
  assumes "1 \<le> self_n self" and "num_coupon_periods self \<noteq> 0"
    and "powers_in_range self" and "price self \<noteq> 0"
  shows "\<exists>ytm ytc. calculate_yields self = Inr (ytm, ytc, min ytm ytc)
           \<and> calculate_bond_analytics self =
               Inr (ytm, ytc, min ytm ytc, macaulay_sum self / price self,
                    (macaulay_sum self / price self)
                      / (1 + ytm / real_of_int (num_coupon_periods self)))"
proof -
  from calculate_yields_candidates [OF assms(2)] obtain c1 c2 where
    c1: "c1 \<in> set x1"
    and res: "calculate_yields self =
               Inr (real_of_int (num_coupon_periods self) * c1, c2,
                    min (real_of_int (num_coupon_periods self) * c1) c2)"
    by blast
  let ?ytm = "real_of_int (num_coupon_periods self) * c1"
  have "0 < c1" using x1_bounds [OF c1] by simp
  moreover have "?ytm / real_of_int (num_coupon_periods self) = c1"
    using assms(2) by simp
  ultimately have nz: "1 + ?ytm / real_of_int (num_coupon_periods self) \<noteq> 0"
    by simp
  have dur: "calculate_durations self ?ytm =
           Inr (macaulay_sum self / price self,
                (macaulay_sum self / price self)
                  / (1 + ?ytm / real_of_int (num_coupon_periods self)))"
    by (rule calculate_durations_returns [OF assms(1) assms(3) assms(4) assms(2) nz])
  have "calculate_bond_analytics self =
               Inr (?ytm, c2, min ?ytm c2, macaulay_sum self / price self,
                    (macaulay_sum self / price self)
                      / (1 + ?ytm / real_of_int (num_coupon_periods self)))"
    by (simp only: calculate_bond_analytics_def res dur sum.case prod.case)
  with res show ?thesis by blast
qed

lemma calculate_bond_analytics_Inr:
  assumes "calculate_bond_analytics self =
             Inr (ytm, ytc, ytw, macaulay_duration, modified_duration)"
  shows "calculate_yields self = Inr (ytm, ytc, ytw)
         \<and> calculate_durations self ytm = Inr (macaulay_duration, modified_duration)"
  using assms
  by (auto simp: calculate_bond_analytics_def split: sum.splits prod.splits)

lemma calculate_yields_Inr:
  assumes "calculate_yields self = Inr (ytm, ytc, ytw)"
  shows "num_coupon_periods self \<noteq> 0 \<and> ytw = min ytm ytc"
proof -
  have nz: "num_coupon_periods self \<noteq> 0"
  proof
    assume "num_coupon_periods self = 0"
    then have "calculate_yields self = Inl ZeroDivisionError"
      by (simp add: calculate_yields_def f_ytm_def)
    with assms show False by simp
  qed
  from calculate_yields_candidates [OF nz] assms nz show ?thesis by auto
qed

lemma Bond_init_periods:
  assumes "1 \<le> self_n (Bond_init pr cpn cp fv tc ym ncp)"
  shows "ncp \<noteq> 0"
proof
  assume "ncp = 0"
  then have "self_n (Bond_init pr cpn cp fv tc ym ncp) = 0"
    by (simp add: Bond_init_def py_int_def)
  with assms show False by simp
qed

subsection \<open>Where the power leaves the range of the doubles\<close>

lemma float_underflow_less_one: "float_underflow < 1"
proof -
  have "(1::real) < 2 ^ 1075" by (rule one_less_power) simp_all
  then show ?thesis by (simp only: float_underflow_def) (simp add: divide_less_eq)
qed

lemma float_overflow_greater_one: "1 < float_overflow"
proof -
  have "(2::real) ^ 970 < 2 ^ 1023" by (intro power_strict_increasing) simp_all
  moreover have "(2::real) ^ 1024 = 2 ^ 1023 + 2 ^ 1023" by simp
  moreover have "(1::real) \<le> 2 ^ 1023" by (rule one_le_power) simp
  ultimately show ?thesis unfolding float_overflow_def by linarith
qed

lemma pow_ok_growing:
  assumes "1 \<le> x" and "x ^ k < float_overflow" and "t \<le> k"
  shows "pow_ok x t"
proof -
  have ge: "1 \<le> x ^ t" using assms(1) by (rule one_le_power)
  have "x ^ t \<le> x ^ k" using assms(1,3) by (rule power_increasing [rotated])
  with assms(2) have "x ^ t < float_overflow" by linarith
  moreover have "\<bar>x ^ t\<bar> = x ^ t" using ge by simp
  ultimately show ?thesis
    unfolding pow_ok_def using ge float_underflow_less_one by linarith
qed

lemma pow_ok_shrinking:
  assumes "0 < x" and "x \<le> 1" and "float_underflow < x ^ k" and "t \<le> k"
  shows "pow_ok x t"
proof -
  have pos: "0 < x ^ t" using assms(1) by simp
  have "x ^ k \<le> x ^ t" using assms(1,2,4) by (intro power_decreasing) simp_all
  with assms(3) have lo: "float_underflow < x ^ t" by linarith
  have "x ^ t \<le> 1" using assms(1,2) by (intro power_le_one) simp_all
  moreover have "\<bar>x ^ t\<bar> = x ^ t" using pos by simp
  ultimately show ?thesis
    unfolding pow_ok_def using lo float_overflow_greater_one by linarith
qed

text \<open>The loop stops at the first power that is out of range, with that power's error.\<close>

lemma durations_loop_first_failure:
  assumes ok: "\<forall>t\<in>{1..k}. pow_ok (1 + i) t" and k: "k < n"
    and bad: "py_float_pow (1 + i) (int (Suc k)) = r" and r: "isl r \<or> r = Inr 0"
  shows "durations_loop c i [1..int n] (0, None)
         = Inl (case r of Inl e' \<Rightarrow> e' | Inr p \<Rightarrow> ZeroDivisionError)"
proof -
  have "[1..int n] = [1..int k] @ [int k + 1..int n]"
  proof (cases "k = 0")
    case True
    then show ?thesis by simp
  next
    case False
    then show ?thesis using k by (intro upto_split2) simp_all
  qed
  moreover have "[int k + 1..int n] = int (Suc k) # [int (Suc k) + 1..int n]"
    using k by (simp add: upto_rec1)
  ultimately have split: "[1..int n] = [1..int k] @ (int (Suc k) # [int (Suc k) + 1..int n])"
    by simp
  show ?thesis
    unfolding split durations_loop_append durations_loop_upto [OF ok]
    using bad r by (auto simp: isl_def)
qed

text \<open>
  The bond with coupon 900 percent and 320 remaining periods: the power \<open>10 ** 309\<close>
  overflows, and the call ends in \<open>OverflowError\<close>.
\<close>

lemma calculate_durations_overflow:
  "calculate_durations (Bond_init 95 900 100 100 5 80 4) ytm = Inl OverflowError"
proof -
  let ?b = "Bond_init 95 900 100 100 5 80 4"
  have n: "self_n ?b = int 320" by (simp add: Bond_init_def py_int_def)
  have x: "1 + coupon ?b * 0.01 = 10" by (simp add: Bond_init_def)
  have top: "(10::real) ^ 308 < float_overflow"
    by (simp add: float_overflow_def)
  have ok: "\<forall>t\<in>{1..308}. pow_ok (1 + coupon ?b * 0.01) t"
    unfolding x using pow_ok_growing [OF _ top] by simp
  have bad: "py_float_pow (1 + coupon ?b * 0.01) (int (Suc 308)) = Inl OverflowError"
    unfolding x by (simp add: py_float_pow_def Let_def float_overflow_def)
  have "durations_loop (coupon ?b * 0.01 * face_value ?b) (coupon ?b * 0.01) [1..int 320] (0, None)
        = Inl OverflowError"
    using durations_loop_first_failure [OF ok _ bad, where n = 320] by simp
  then show ?thesis
    by (simp only: calculate_durations_def Let_def n sum.case)
qed

text \<open>
  The bond with coupon -99.9 percent and 120 remaining periods: the power
  \<open>0.001 ** 108\<close> is rounded to zero, and the call ends in \<open>ZeroDivisionError\<close>.
\<close>

lemma calculate_durations_underflow:
  "calculate_durations (Bond_init 95 (- 999 / 10) 100 100 5 30 4) ytm = Inl ZeroDivisionError"
proof -
  let ?b = "Bond_init 95 (- 999 / 10) 100 100 5 30 4"
  have n: "self_n ?b = int 120" by (simp add: Bond_init_def py_int_def)
  have x: "1 + coupon ?b * 0.01 = 1 / 1000" by (simp add: Bond_init_def)
  have bot: "float_underflow < (1 / 1000 :: real) ^ 107"
    by (simp add: float_underflow_def field_simps)
  have ok: "\<forall>t\<in>{1..107}. pow_ok (1 + coupon ?b * 0.01) t"
    unfolding x using pow_ok_shrinking [OF _ _ bot] by simp
  have bad: "py_float_pow (1 + coupon ?b * 0.01) (int (Suc 107)) = Inr 0"
    unfolding x by (simp add: py_float_pow_def Let_def float_underflow_def float_overflow_def field_simps)
  have "durations_loop (coupon ?b * 0.01 * face_value ?b) (coupon ?b * 0.01) [1..int 120] (0, None)
        = Inl ZeroDivisionError"
    using durations_loop_first_failure [OF ok _ bad, where n = 120] by simp
  then show ?thesis
    by (simp only: calculate_durations_def Let_def n sum.case)
qed

lemma calculate_bond_analytics_overflow:
  "calculate_bond_analytics (Bond_init 95 900 100 100 5 80 4) = Inl OverflowError"
proof -
  let ?b = "Bond_init 95 900 100 100 5 80 4"
  have "num_coupon_periods ?b \<noteq> 0" by (simp add: Bond_init_def)
  from calculate_yields_candidates [OF this] obtain ytm ytc ytw where
    "calculate_yields ?b = Inr (ytm, ytc, ytw)" by blast
  then show ?thesis
    by (simp only: calculate_bond_analytics_def calculate_durations_overflow sum.case prod.case)
qed

lemma calculate_bond_analytics_underflow:
  "calculate_bond_analytics (Bond_init 95 (- 999 / 10) 100 100 5 30 4) = Inl ZeroDivisionError"
proof -
  let ?b = "Bond_init 95 (- 999 / 10) 100 100 5 30 4"
  have "num_coupon_periods ?b \<noteq> 0" by (simp add: Bond_init_def)
  from calculate_yields_candidates [OF this] obtain ytm ytc ytw where
    "calculate_yields ?b = Inr (ytm, ytc, ytw)" by blast
  then show ?thesis
    by (simp only: calculate_bond_analytics_def calculate_durations_underflow sum.case prod.case)
qed

section \<open>Verified properties of the Bond class\<close>

text \<open>
  C1. For a bond with at least one remaining period, \<open>calculate_yields\<close> evaluates
  both residuals on the whole grid \<open>{0.0001, 0.0002, ..., 0.9999}\<close> and selects, for
  each residual on its own, a candidate of least absolute residual; the YTM is
  \<open>num_coupon_periods\<close> times the candidate of \<open>f_ytm\<close>, the YTC is the candidate of
  \<open>f_ytc\<close> as it is.
\<close>

theorem calculate_yields_selects_argmin:
  assumes "self = Bond_init pr cpn cp fv tc ym ncp" and "1 \<le> self_n self"
  shows "set x1 = (\<lambda>k. real k / 10000) ` {1..9999}
         \<and> f_ytm self x1 = Inr (map (f_ytm_at self) x1)
         \<and> f_ytc self x1 = map (f_ytc_at self) x1
         \<and> (\<exists>c1 c2. c1 \<in> set x1 \<and> c2 \<in> set x1
               \<and> (\<forall>y\<in>set x1. \<bar>f_ytm_at self c1\<bar> \<le> \<bar>f_ytm_at self y\<bar>)
               \<and> (\<forall>y\<in>set x1. \<bar>f_ytc_at self c2\<bar> \<le> \<bar>f_ytc_at self y\<bar>)
               \<and> calculate_yields self =
                   Inr (real_of_int ncp * c1, c2, min (real_of_int ncp * c1) c2))"
proof -
  have ncp: "ncp \<noteq> 0"
    using assms Bond_init_periods by blast
  have sel: "num_coupon_periods self = ncp"
    using assms(1) by (simp add: Bond_init_def)
  have nz: "num_coupon_periods self \<noteq> 0" using ncp sel by simp
  have "f_ytm self x1 = Inr (map (f_ytm_at self) x1)"
    using nz by (simp add: f_ytm_def)
  moreover have "f_ytc self x1 = map (f_ytc_at self) x1"
    by (simp add: f_ytc_def)
  moreover note set_x1 calculate_yields_candidates [OF nz, unfolded sel]
  ultimately show ?thesis by blast
qed

theorem calculate_yields_selects_argmin_witness:
  "1 \<le> self_n (Bond_init 95 5 100 100 5 10 2)
   \<and> (\<exists>c1 c2. c1 \<in> set x1 \<and> c2 \<in> set x1
         \<and> calculate_yields (Bond_init 95 5 100 100 5 10 2) = Inr (2 * c1, c2, min (2 * c1) c2))"
proof -
  have n: "1 \<le> self_n (Bond_init 95 5 100 100 5 10 2)"
    by (simp add: Bond_init_def py_int_def)
  from calculate_yields_selects_argmin [OF refl n] n show ?thesis
    by auto
qed

text \<open>
  C10. With a positive number of coupon periods per year \<open>calculate_yields\<close> returns,
  the YTC lies in \<open>[0.0001, 0.9999]\<close>, the YTM in
  \<open>[0.0001 * num_coupon_periods, 0.9999 * num_coupon_periods]\<close>, and all three yields
  are strictly positive, whatever the residuals are.
\<close>

theorem calculate_yields_bounded:
  assumes "1 \<le> num_coupon_periods self"
  shows "\<exists>ytm ytc ytw. calculate_yields self = Inr (ytm, ytc, ytw)
           \<and> 0.0001 \<le> ytc \<and> ytc \<le> 0.9999
           \<and> 0.0001 * real_of_int (num_coupon_periods self) \<le> ytm
           \<and> ytm \<le> 0.9999 * real_of_int (num_coupon_periods self)
           \<and> ytw = min ytm ytc
           \<and> 0 < ytm \<and> 0 < ytc \<and> 0 < ytw"
proof -
  have nz: "num_coupon_periods self \<noteq> 0" using assms by simp
  from calculate_yields_candidates [OF nz] obtain c1 c2 where
    c: "c1 \<in> set x1" "c2 \<in> set x1"
    and res: "calculate_yields self =
               Inr (real_of_int (num_coupon_periods self) * c1, c2,
                    min (real_of_int (num_coupon_periods self) * c1) c2)"
    by blast
  let ?p = "real_of_int (num_coupon_periods self)"
  have p: "1 \<le> ?p" using assms by simp
  have b1: "0.0001 \<le> c1" "c1 \<le> 0.9999" and b2: "0.0001 \<le> c2" "c2 \<le> 0.9999"
    using x1_bounds c by simp_all
  have lo: "0.0001 * ?p \<le> ?p * c1"
    using p b1(1) by (simp add: mult.commute mult_left_mono)
  have hi: "?p * c1 \<le> 0.9999 * ?p"
    using p b1(2) by (simp add: mult.commute mult_left_mono)
  have pos1: "0 < ?p * c1" using p b1(1) by (simp add: zero_less_mult_iff)
  have pos2: "0 < c2" using b2(1) by simp
  from res lo hi pos1 pos2 b2 show ?thesis by simp
qed

theorem calculate_yields_bounded_witness:
  "1 \<le> num_coupon_periods (Bond_init 95 5 100 100 5 10 2)
   \<and> (\<exists>ytm ytc ytw. calculate_yields (Bond_init 95 5 100 100 5 10 2) = Inr (ytm, ytc, ytw)
         \<and> 1 / 10000 \<le> ytc \<and> ytc \<le> 9999 / 10000 \<and> 2 / 10000 \<le> ytm \<and> ytm \<le> 19998 / 10000
         \<and> 0 < ytw)"
proof -
  have n: "1 \<le> num_coupon_periods (Bond_init 95 5 100 100 5 10 2)"
    by (simp add: Bond_init_def)
  have two: "real_of_int (num_coupon_periods (Bond_init 95 5 100 100 5 10 2)) = 2"
    by (simp add: Bond_init_def)
  from calculate_yields_bounded [OF n] n show ?thesis
    unfolding two by auto
qed

text \<open>
  C4. Whenever \<open>calculate_bond_analytics\<close> returns its 5-tuple for a valid bond, the
  Yield to Worst in it is the minimum of the YTM and the YTC beside it; and it does
  return for a valid bond whose duration powers stay within the range of the doubles.
\<close>

theorem calculate_bond_analytics_ytw:
  assumes "valid_bond self"
  shows "(\<forall>ytm ytc ytw macaulay_duration modified_duration.
            calculate_bond_analytics self =
              Inr (ytm, ytc, ytw, macaulay_duration, modified_duration)
            \<longrightarrow> ytw = min ytm ytc)
         \<and> (powers_in_range self \<longrightarrow>
              (\<exists>ytm ytc ytw macaulay_duration modified_duration.
                 calculate_bond_analytics self =
                   Inr (ytm, ytc, ytw, macaulay_duration, modified_duration)))"
proof -
  have rel: "ytw = min ytm ytc"
    if "calculate_bond_analytics self = Inr (ytm, ytc, ytw, mac, md)" for ytm ytc ytw mac md
    using calculate_bond_analytics_Inr [OF that] calculate_yields_Inr by blast
  have ret: "\<exists>ytm ytc ytw mac md. calculate_bond_analytics self = Inr (ytm, ytc, ytw, mac, md)"
    if "powers_in_range self"
  proof -
    have "1 \<le> self_n self" "num_coupon_periods self \<noteq> 0" "price self \<noteq> 0"
      using assms by (simp_all add: valid_bond_def)
    from calculate_bond_analytics_returns [OF this(1,2) that this(3)] show ?thesis by blast
  qed
  from rel ret show ?thesis by blast
qed

theorem calculate_bond_analytics_ytw_witness:
  "valid_bond (Bond_init 95 5 100 100 5 10 2)
   \<and> powers_in_range (Bond_init 95 5 100 100 5 10 2)
   \<and> (\<exists>ytm ytc ytw macaulay_duration modified_duration.
         calculate_bond_analytics (Bond_init 95 5 100 100 5 10 2) =
           Inr (ytm, ytc, ytw, macaulay_duration, modified_duration)
         \<and> ytw = min ytm ytc)"
proof -
  let ?b = "Bond_init 95 5 100 100 5 10 2"
  have v: "valid_bond ?b"
    by (simp add: valid_bond_def Bond_init_def py_int_def)
  have r: "powers_in_range ?b"
    by (rule powers_in_range_moderate) (simp_all add: Bond_init_def py_int_def)
  from calculate_bond_analytics_ytw [OF v] v r show ?thesis by blast
qed

text \<open>
  C5. For a valid bond and a yield \<open>ytm\<close> with \<open>1 + ytm / num_coupon_periods\<close> not zero,
  whenever \<open>calculate_durations\<close> returns, the Modified Duration is the Macaulay
  Duration divided by \<open>1 + ytm / num_coupon_periods\<close>, it is strictly below the
  Macaulay Duration when \<open>ytm / num_coupon_periods\<close> is positive, and equal to it when
  \<open>ytm\<close> is zero; and it does return when the duration powers stay within the range of
  the doubles.
\<close>

theorem calculate_durations_modified:
  assumes "valid_bond self"
    and "1 + ytm / real_of_int (num_coupon_periods self) \<noteq> 0"
  shows "(\<forall>macaulay_duration modified_duration.
            calculate_durations self ytm = Inr (macaulay_duration, modified_duration)
            \<longrightarrow> modified_duration
                  = macaulay_duration / (1 + ytm / real_of_int (num_coupon_periods self))
                \<and> (0 < ytm / real_of_int (num_coupon_periods self)
                     \<longrightarrow> modified_duration < macaulay_duration)
                \<and> (ytm = 0 \<longrightarrow> modified_duration = macaulay_duration))
         \<and> (powers_in_range self \<longrightarrow>
              (\<exists>macaulay_duration modified_duration.
                 calculate_durations self ytm = Inr (macaulay_duration, modified_duration)))"
proof -
  let ?mac = "macaulay_sum self / price self"
  let ?d = "1 + ytm / real_of_int (num_coupon_periods self)"
  have v: "1 \<le> self_n self" "price self \<noteq> 0" "num_coupon_periods self \<noteq> 0"
    using assms(1) by (simp_all add: valid_bond_def)
  have "0 < macaulay_sum self"
    using assms(1) by (intro macaulay_sum_pos) (simp_all add: valid_bond_def)
  moreover have "0 < price self" using assms(1) by (simp add: valid_bond_def)
  ultimately have pos: "0 < ?mac" by simp
  have lt: "?mac / ?d < ?mac" if "0 < ytm / real_of_int (num_coupon_periods self)"
  proof -
    have gen: "a / d < a" if "0 < a" "1 < d" for a d :: real
      using that by (simp add: divide_less_eq)
    have "1 < ?d" using that by simp
    with pos show ?thesis by (rule gen)
  qed
  have eq: "?mac / ?d = ?mac" if "ytm = 0"
    using that by simp
  have rel: "md = mac / ?d
             \<and> (0 < ytm / real_of_int (num_coupon_periods self) \<longrightarrow> md < mac)
             \<and> (ytm = 0 \<longrightarrow> md = mac)"
    if "calculate_durations self ytm = Inr (mac, md)" for mac md
  proof -
    from calculate_durations_Inr [OF that]
    have "mac = ?mac" and "md = ?mac / ?d" by simp_all
    with lt eq show ?thesis by blast
  qed
  have ret: "\<exists>mac md. calculate_durations self ytm = Inr (mac, md)" if "powers_in_range self"
    using calculate_durations_returns [OF v(1) that v(2,3) assms(2)] by blast
  from rel ret show ?thesis by blast
qed

theorem calculate_durations_modified_witness:
  "valid_bond (Bond_init 95 5 100 100 5 10 2)
   \<and> 1 + (1 / 20) / real_of_int (num_coupon_periods (Bond_init 95 5 100 100 5 10 2)) \<noteq> 0
   \<and> powers_in_range (Bond_init 95 5 100 100 5 10 2)
   \<and> (\<exists>macaulay_duration modified_duration.
         calculate_durations (Bond_init 95 5 100 100 5 10 2) (1 / 20)
           = Inr (macaulay_duration, modified_duration)
         \<and> modified_duration = macaulay_duration / (41 / 40)
         \<and> modified_duration < macaulay_duration)"
proof -
  let ?b = "Bond_init 95 5 100 100 5 10 2"
  have v: "valid_bond ?b"
    by (simp add: valid_bond_def Bond_init_def py_int_def)
  have r: "powers_in_range ?b"
    by (rule powers_in_range_moderate) (simp_all add: Bond_init_def py_int_def)
  have two: "real_of_int (num_coupon_periods ?b) = 2"
    by (simp add: Bond_init_def)
  have nz: "1 + (1 / 20) / real_of_int (num_coupon_periods ?b) \<noteq> 0"
    unfolding two by simp
  note main = calculate_durations_modified [OF v nz]
  from main r obtain mac md where
    res: "calculate_durations ?b (1 / 20) = Inr (mac, md)"
    by blast
  with main have m: "md = mac / (1 + (1 / 20) / real_of_int (num_coupon_periods ?b))"
    and l: "0 < (1 / 20) / real_of_int (num_coupon_periods ?b) \<longrightarrow> md < mac"
    by blast+
  have "md = mac / (41 / 40)" using m unfolding two by simp
  moreover have "md < mac" using l unfolding two by simp
  ultimately show ?thesis using v nz r res by blast
qed

text \<open>
  C2. The Macaulay Duration of the code against the formula of the specification, at
  the bond with price 95, coupon 5 percent, call price 100, face value 100, 5 years to
  call, 1 year to maturity and 2 coupon periods per year (2 remaining periods). The
  code accumulates the annual coupon payment 5 in every period, the formula the
  periodic coupon amount 2.5.
\<close>

theorem calculate_durations_annual_coupon:
  "calculate_durations (Bond_init 95 5 100 100 5 1 2) (1 / 20) = Inr (820 / 399, 800 / 399)
   \<and> macaulay_duration_spec (Bond_init 95 5 100 100 5 1 2) = 16610 / 8379
   \<and> (820 / 399 :: real) \<noteq> 16610 / 8379"
proof -
  let ?b = "Bond_init 95 5 100 100 5 1 2"
  have n: "self_n ?b = 2" by (simp add: Bond_init_def py_int_def)
  have two: "nat 2 = Suc (Suc 0)" by simp
  have ms: "macaulay_sum ?b = 4100 / 21"
    unfolding macaulay_sum_def n two by (simp add: Bond_init_def)
  have r: "powers_in_range ?b"
    by (rule powers_in_range_moderate) (simp_all add: Bond_init_def py_int_def)
  have hyp: "1 \<le> self_n ?b" "powers_in_range ?b" "price ?b \<noteq> 0"
    "num_coupon_periods ?b \<noteq> 0"
    "1 + (1 / 20) / real_of_int (num_coupon_periods ?b) \<noteq> 0"
    using r by (simp_all add: Bond_init_def py_int_def)
  have "calculate_durations ?b (1 / 20) = Inr (820 / 399, 800 / 399)"
    unfolding calculate_durations_returns [OF hyp] ms by (simp add: Bond_init_def)
  moreover have "macaulay_duration_spec ?b = 16610 / 8379"
    unfolding macaulay_duration_spec_def n two by (simp add: Bond_init_def)
  ultimately show ?thesis by simp
qed

text \<open>
  C9. \<open>calculate_bond_analytics\<close> validates nothing. With at least one remaining
  period, a number of coupon periods per year other than zero (which the constructor
  gives whenever there is a remaining period), a market price other than zero and
  duration powers within the range of the doubles, it returns its five numbers,
  whatever the signs of the market price and of the face value.
\<close>

theorem calculate_bond_analytics_no_validation:
  assumes "1 \<le> self_n self" and "num_coupon_periods self \<noteq> 0"
    and "powers_in_range self" and "price self \<noteq> 0"
  shows "\<exists>ytm ytc ytw macaulay_duration modified_duration.
           calculate_bond_analytics self =
             Inr (ytm, ytc, ytw, macaulay_duration, modified_duration)"
  using calculate_bond_analytics_returns [OF assms] by blast

theorem calculate_bond_analytics_no_validation_witness:
  "1 \<le> self_n (Bond_init (- 95) 5 100 0 5 10 2)
   \<and> num_coupon_periods (Bond_init (- 95) 5 100 0 5 10 2) \<noteq> 0
   \<and> powers_in_range (Bond_init (- 95) 5 100 0 5 10 2)
   \<and> price (Bond_init (- 95) 5 100 0 5 10 2) \<noteq> 0
   \<and> (\<exists>ytm ytc ytw macaulay_duration modified_duration.
         calculate_bond_analytics (Bond_init (- 95) 5 100 0 5 10 2) =
           Inr (ytm, ytc, ytw, macaulay_duration, modified_duration))"
proof -
  let ?b = "Bond_init (- 95) 5 100 0 5 10 2"
  have h: "1 \<le> self_n ?b" "num_coupon_periods ?b \<noteq> 0" "price ?b \<noteq> 0"
    by (simp_all add: Bond_init_def py_int_def)
  have r: "powers_in_range ?b"
    by (rule powers_in_range_moderate) (simp_all add: Bond_init_def py_int_def)
  from calculate_bond_analytics_no_validation [OF h(1,2) r h(3)] h r show ?thesis by blast
qed

text \<open>
  A bond with the market price -95 (coupon 5 percent, call price 100, face value 100,
  5 years to call, 10 years to maturity, 2 coupon periods per year) is not rejected:
  the call returns its five numbers.
\<close>

theorem calculate_bond_analytics_negative_price:
  "\<not> isl (calculate_bond_analytics (Bond_init (- 95) 5 100 100 5 10 2))"
proof -
  let ?b = "Bond_init (- 95) 5 100 100 5 10 2"
  have h: "1 \<le> self_n ?b" "num_coupon_periods ?b \<noteq> 0" "price ?b \<noteq> 0"
    by (simp_all add: Bond_init_def py_int_def)
  have r: "powers_in_range ?b"
    by (rule powers_in_range_moderate) (simp_all add: Bond_init_def py_int_def)
  from calculate_bond_analytics_returns [OF h(1,2) r h(3)] obtain x where
    "calculate_bond_analytics ?b = Inr x" by blast
  then show ?thesis by simp
qed

section \<open>Properties of the portfolio functions\<close>

subsection \<open>historical_var counts the returns below the cutoff\<close>

lemma historical_var_loop_take:
  assumes "m \<le> length port_returns"
  shows "fold (\<lambda>i relevant_returns.
                 if port_returns ! i < var_p then relevant_returns + 1 else relevant_returns)
              [0..<m] (0::nat)
         = length (filter (\<lambda>x. x < var_p) (take m port_returns))"
  using assms
proof (induction m)
  case 0
  show ?case by simp
next
  case (Suc m)
  then have lt: "m < length port_returns" by simp
  have "take (Suc m) port_returns = take m port_returns @ [port_returns ! m]"
    using lt by (simp add: take_Suc_conv_app_nth)
  with Suc show ?case by simp
qed

lemma historical_var_loop_count:
  "historical_var_loop port_returns var_p = length (filter (\<lambda>x. x < var_p) port_returns)"
  unfolding historical_var_loop_def
  using historical_var_loop_take [of "length port_returns" port_returns var_p] by simp

lemma filter_less_mono:
  fixes v :: real
  assumes "v \<le> v'"
  shows "length (filter (\<lambda>x. x < v) xs) \<le> length (filter (\<lambda>x. x < v') xs)"
  using assms by (induction xs) auto
subsection \<open>The quadratic form is the sample variance of the weighted sums\<close>

lemma quadratic_form_variance:
  fixes w :: "nat \<Rightarrow> real" and r :: "nat \<Rightarrow> nat \<Rightarrow> real" and c :: real and T :: nat
  defines "m \<equiv> \<lambda>i. (\<Sum>t<T. r i t) / real T"
  shows "(\<Sum>j<N. (\<Sum>i<N. w i * ((\<Sum>t<T. (r i t - m i) * (r j t - m j)) * c)) * w j)
         = (\<Sum>t<T. ((\<Sum>i<N. w i * r i t) - (\<Sum>s<T. \<Sum>i<N. w i * r i s) / real T)\<^sup>2) * c"
proof -
  define d where "d = (\<lambda>i t. r i t - m i)"
  have pbar: "(\<Sum>s<T. \<Sum>i<N. w i * r i s) / real T = (\<Sum>i<N. w i * m i)"
  proof -
    have "(\<Sum>s<T. \<Sum>i<N. w i * r i s) = (\<Sum>i<N. \<Sum>s<T. w i * r i s)"
      by (rule sum.swap)
    also have "\<dots> = (\<Sum>i<N. w i * (\<Sum>s<T. r i s))"
      by (simp add: sum_distrib_left)
    finally have e: "(\<Sum>s<T. \<Sum>i<N. w i * r i s) = (\<Sum>i<N. w i * (\<Sum>s<T. r i s))" .
    have g: "(\<Sum>i<N. w i * S i) / real T = (\<Sum>i<N. w i * (S i / real T))" for S :: "nat \<Rightarrow> real"
      by (simp add: sum_divide_distrib)
    show ?thesis unfolding e m_def by (rule g)
  qed
  have dev: "(\<Sum>i<N. w i * r i t) - (\<Sum>s<T. \<Sum>i<N. w i * r i s) / real T = (\<Sum>i<N. w i * d i t)" for t
    unfolding pbar d_def by (simp add: sum_subtractf right_diff_distrib)
  have sq: "(\<Sum>i<N. w i * d i t)\<^sup>2 = (\<Sum>j<N. \<Sum>i<N. w i * (d i t * d j t) * w j)" for t
  proof -
    have "(\<Sum>i<N. w i * d i t)\<^sup>2 = (\<Sum>i<N. w i * d i t) * (\<Sum>j<N. w j * d j t)"
      by (simp add: power2_eq_square)
    also have "\<dots> = (\<Sum>i<N. \<Sum>j<N. (w i * d i t) * (w j * d j t))"
      by (rule sum_product)
    also have "\<dots> = (\<Sum>j<N. \<Sum>i<N. (w i * d i t) * (w j * d j t))"
      by (rule sum.swap)
    also have "\<dots> = (\<Sum>j<N. \<Sum>i<N. w i * (d i t * d j t) * w j)"
      by (simp add: mult_ac)
    finally show ?thesis .
  qed
  have "(\<Sum>j<N. (\<Sum>i<N. w i * ((\<Sum>t<T. d i t * d j t) * c)) * w j)
        = (\<Sum>j<N. \<Sum>i<N. \<Sum>t<T. w i * (d i t * d j t) * w j) * c"
    by (simp add: sum_distrib_left sum_distrib_right mult_ac)
  also have "(\<Sum>j<N. \<Sum>i<N. \<Sum>t<T. w i * (d i t * d j t) * w j)
        = (\<Sum>j<N. \<Sum>t<T. \<Sum>i<N. w i * (d i t * d j t) * w j)"
    by (simp add: sum.swap [of _ "{..<T}" "{..<N}"])
  also have "\<dots> = (\<Sum>t<T. \<Sum>j<N. \<Sum>i<N. w i * (d i t * d j t) * w j)"
    by (rule sum.swap)
  also have "\<dots> = (\<Sum>t<T. (\<Sum>i<N. w i * d i t)\<^sup>2)"
    by (simp add: sq)
  finally show ?thesis
    unfolding dev d_def .
qed

lemma sum_list_upt: "sum_list (map f [0..<n]) = (\<Sum>i<n. f i)"
  by (simp add: interv_sum_list_conv_sum_set_nat atLeast0LessThan)

lemma sum_list_nth: "sum_list (xs :: real list) = (\<Sum>t<length xs. xs ! t)"
  by (simp add: sum_list_sum_nth atLeast0LessThan)

lemma is_matrix_row: "is_matrix N T m \<Longrightarrow> i < N \<Longrightarrow> length (m ! i) = T"
  by (simp add: is_matrix_def)

lemma is_matrix_shape: "is_matrix N T m \<Longrightarrow> 0 < N \<Longrightarrow> shape0 m = N \<and> shape1 m = T"
  by (cases m) (auto simp: is_matrix_def shape0_def shape1_def)

lemma np_cov_shape:
  assumes "is_matrix N T m" and "0 < N"
  shows "is_matrix N N (np_cov m)"
  using assms by (auto simp: np_cov_def Let_def is_matrix_def)

lemma np_cov_nth:
  assumes m: "is_matrix N T m" and N: "0 < N" and i: "i < N" and j: "j < N"
  shows "np_cov m ! i ! j
         = (\<Sum>t<T. (m ! i ! t - (\<Sum>s<T. m ! i ! s) / real T)
                    * (m ! j ! t - (\<Sum>s<T. m ! j ! s) / real T)) * (1 / (real T - 1))"
proof -
  have len: "length m = N" using m by (simp add: is_matrix_def)
  have T: "shape1 m = T" using is_matrix_shape [OF m N] by simp
  have row: "length (m ! k) = T" if "k < N" for k
    using is_matrix_row [OF m that] .
  have cen: "map (\<lambda>x. x - sum_list (m ! k) / real T) (m ! k) ! t
             = m ! k ! t - (\<Sum>s<T. m ! k ! s) / real T" if "k < N" "t < T" for k t
    using that row [of k] sum_list_nth [of "m ! k"] by simp
  have "np_cov m ! i ! j
        = sum_list (map (\<lambda>t. map (\<lambda>x. x - sum_list (m ! i) / real T) (m ! i) ! t
                              * map (\<lambda>x. x - sum_list (m ! j) / real T) (m ! j) ! t) [0..<T])
          * (1 / (real T - 1))"
    using i j len by (simp add: np_cov_def Let_def T)
  also have "\<dots> = (\<Sum>t<T. map (\<lambda>x. x - sum_list (m ! i) / real T) (m ! i) ! t
                              * map (\<lambda>x. x - sum_list (m ! j) / real T) (m ! j) ! t)
          * (1 / (real T - 1))"
    by (simp only: sum_list_upt)
  also have "\<dots> = (\<Sum>t<T. (m ! i ! t - (\<Sum>s<T. m ! i ! s) / real T)
                    * (m ! j ! t - (\<Sum>s<T. m ! j ! s) / real T)) * (1 / (real T - 1))"
    using cen [OF i] cen [OF j] by simp
  finally show ?thesis .
qed

lemma portfolio_returns_eq:
  assumes "is_matrix N T returns" and "0 < N" and "length weights = N"
  shows "portfolio_returns returns weights
         = Inr (map (\<lambda>t. \<Sum>i<N. weights ! i * returns ! i ! t) [0..<T])"
  using assms is_matrix_shape [OF assms(1,2)]
  by (simp add: portfolio_returns_def dot_vec_mat_def sum_list_upt)

lemma sample_variance_map:
  "sample_variance (map p [0..<T])
   = (\<Sum>t<T. (p t - (\<Sum>s<T. p s) / real T)\<^sup>2) * (1 / (real T - 1))"
  by (simp add: sample_variance_def sum_list_upt comp_def)

lemma portfolio_volatility_eq:
  assumes m: "is_matrix N T returns" and N: "0 < N" and w: "length weights = N" and T: "2 \<le> T"
  shows "portfolio_volatility returns weights
         = Inr (Finite (\<Sum>j<N. (\<Sum>i<N. weights ! i * np_cov returns ! i ! j) * weights ! j))"
proof -
  have sh: "shape0 returns = N" "shape1 returns = T"
    using is_matrix_shape [OF m N] by simp_all
  have cs: "shape0 (np_cov returns) = N" "shape1 (np_cov returns) = N"
    using is_matrix_shape [OF np_cov_shape [OF m N] N] by simp_all
  have ne: "weights \<noteq> []" using w N by auto
  show ?thesis
  proof (cases "N = 1")
    case True
    then show ?thesis
      using ne sh w T
      by (simp add: portfolio_volatility_def Let_def dot_vec_vec_def sum_list_upt)
  next
    case False
    then show ?thesis
      using ne sh cs w T
      by (simp add: portfolio_volatility_def Let_def dot_vec_vec_def dot_vec_mat_def sum_list_upt)
  qed
qed

lemma portfolio_volatility_variance:
  assumes m: "is_matrix N T returns" and N: "0 < N" and w: "length weights = N" and T: "2 \<le> T"
  shows "portfolio_volatility returns weights
         = Inr (Finite (sample_variance (map (\<lambda>t. \<Sum>i<N. weights ! i * returns ! i ! t) [0..<T])))"
proof -
  let ?w = "\<lambda>i. weights ! i" and ?r = "\<lambda>i t. returns ! i ! t"
  let ?c = "1 / (real T - 1)"
  let ?m = "\<lambda>i. (\<Sum>s<T. ?r i s) / real T"
  have "(\<Sum>j<N. (\<Sum>i<N. ?w i * np_cov returns ! i ! j) * ?w j)
        = (\<Sum>j<N. (\<Sum>i<N. ?w i * ((\<Sum>t<T. (?r i t - ?m i) * (?r j t - ?m j)) * ?c)) * ?w j)"
    by (intro sum.cong refl arg_cong2 [where f = "(*)"]) (simp add: np_cov_nth [OF m N])
  also have "\<dots> = (\<Sum>t<T. ((\<Sum>i<N. ?w i * ?r i t) - (\<Sum>s<T. \<Sum>i<N. ?w i * ?r i s) / real T)\<^sup>2) * ?c"
    by (rule quadratic_form_variance)
  also have "\<dots> = sample_variance (map (\<lambda>t. \<Sum>i<N. ?w i * ?r i t) [0..<T])"
    by (simp only: sample_variance_map)
  finally show ?thesis
    using portfolio_volatility_eq [OF m N w T] by simp
qed

lemma sample_variance_nonneg:
  assumes "2 \<le> length xs"
  shows "0 \<le> sample_variance xs"
proof -
  have "0 \<le> sum_list (map (\<lambda>x. (x - sum_list xs / real (length xs))\<^sup>2) xs)"
    by (rule sum_list_nonneg) auto
  moreover have "0 < real (length xs) - 1" using assms by simp
  ultimately show ?thesis by (simp add: sample_variance_def)
qed

subsection \<open>Divisions of numpy floats by zero\<close>

lemma np_div_zero_not_finite: "np_div a (Finite 0) \<noteq> Finite x"
  by (cases a) (simp_all add: np_inf_def)

lemma np_sub_not_finite:
  assumes "\<And>x. a \<noteq> Finite x"
  shows "np_sub a b \<noteq> Finite y"
  using assms by (cases a; cases b) (simp_all add: np_sub_def)

section \<open>Verified properties of the portfolio functions\<close>

text \<open>
  C6. On a series that is not empty, \<open>historical_var\<close> returns the number of returns
  strictly below \<open>var_p\<close> divided by the number of returns; the result lies between 0
  and 1 and does not decrease when \<open>var_p\<close> grows.
\<close>

theorem historical_var_fraction:
  assumes "port_returns \<noteq> []"
  shows "\<exists>h. historical_var port_returns var_p = Inr h
           \<and> h = real (length (filter (\<lambda>x. x < var_p) port_returns))
                   / real (length port_returns)
           \<and> 0 \<le> h \<and> h \<le> 1
           \<and> (\<forall>var_p'. var_p \<le> var_p' \<longrightarrow>
                 (\<exists>h'. historical_var port_returns var_p' = Inr h' \<and> h \<le> h'))"
proof -
  let ?c = "\<lambda>v. real (length (filter (\<lambda>x. x < v) port_returns))"
  let ?n = "real (length port_returns)"
  have n: "0 < ?n" using assms by simp
  have res: "historical_var port_returns v = Inr (?c v / ?n)" for v
    using assms by (simp add: historical_var_def historical_var_loop_count)
  have "?c var_p \<le> ?n" by simp
  then have le1: "?c var_p / ?n \<le> 1" using n by simp
  have ge0: "0 \<le> ?c var_p / ?n" by simp
  have mono: "?c var_p / ?n \<le> ?c v' / ?n" if "var_p \<le> v'" for v'
    using filter_less_mono [OF that, of port_returns] n by (simp add: divide_right_mono)
  from res le1 ge0 mono show ?thesis by blast
qed

theorem historical_var_fraction_witness:
  "[- 1 / 10, 1 / 100, - 1 / 20, 1 / 50] \<noteq> ([] :: real list)
   \<and> historical_var [- 1 / 10, 1 / 100, - 1 / 20, 1 / 50] (- 9 / 100) = Inr (1 / 4)
   \<and> historical_var [- 1 / 10, 1 / 100, - 1 / 20, 1 / 50] 0 = Inr (1 / 2)"
proof -
  let ?pr = "[- 1 / 10, 1 / 100, - 1 / 20, 1 / 50] :: real list"
  have ne: "?pr \<noteq> []" by simp
  from historical_var_fraction [OF ne, of "- 9 / 100"] obtain h where
    "historical_var ?pr (- 9 / 100) = Inr h"
    and "h = real (length (filter (\<lambda>x. x < - 9 / 100) ?pr)) / real (length ?pr)"
    by blast
  then have a: "historical_var ?pr (- 9 / 100) = Inr (1 / 4)" by simp
  from historical_var_fraction [OF ne, of 0] obtain h0 where
    "historical_var ?pr 0 = Inr h0"
    and "h0 = real (length (filter (\<lambda>x. x < 0) ?pr)) / real (length ?pr)"
    by blast
  then have b: "historical_var ?pr 0 = Inr (1 / 2)" by simp
  from ne a b show ?thesis by blast
qed

text \<open>
  C3. For \<open>N\<close> weights and an \<open>N\<close> by \<open>T\<close> matrix of returns, with at least one asset
  and at least two columns, \<open>portfolio_returns\<close> returns the series of length \<open>T\<close> of
  the weighted sums and \<open>portfolio_volatility\<close> returns the sample variance of that
  series.
\<close>

theorem portfolio_volatility_sample_variance:
  assumes "is_matrix N T returns" and "0 < N" and "length weights = N" and "2 \<le> T"
  shows "\<exists>port_returns. portfolio_returns returns weights = Inr port_returns
           \<and> length port_returns = T
           \<and> portfolio_volatility returns weights = Inr (Finite (sample_variance port_returns))"
proof -
  let ?pr = "map (\<lambda>t. \<Sum>i<N. weights ! i * returns ! i ! t) [0..<T]"
  have "portfolio_returns returns weights = Inr ?pr"
    by (rule portfolio_returns_eq [OF assms(1,2,3)])
  moreover have "length ?pr = T" by simp
  moreover have "portfolio_volatility returns weights = Inr (Finite (sample_variance ?pr))"
    by (rule portfolio_volatility_variance [OF assms])
  ultimately show ?thesis by blast
qed

theorem portfolio_volatility_sample_variance_witness:
  "is_matrix 2 4 [[1 / 100, - 2 / 100, 3 / 100, 0], [2 / 100, 1 / 100, - 1 / 100, 2 / 100]]
   \<and> (0::nat) < 2 \<and> length [1 / 2, 1 / 2 :: real] = 2 \<and> (2::nat) \<le> 4
   \<and> portfolio_returns [[1 / 100, - 2 / 100, 3 / 100, 0], [2 / 100, 1 / 100, - 1 / 100, 2 / 100]]
        [1 / 2, 1 / 2] = Inr [3 / 200, - 1 / 200, 1 / 100, 1 / 100]
   \<and> portfolio_volatility [[1 / 100, - 2 / 100, 3 / 100, 0], [2 / 100, 1 / 100, - 1 / 100, 2 / 100]]
        [1 / 2, 1 / 2] = Inr (Finite (3 / 40000))"
proof -
  let ?R = "[[1 / 100, - 2 / 100, 3 / 100, 0], [2 / 100, 1 / 100, - 1 / 100, 2 / 100]] :: real list list"
  let ?w = "[1 / 2, 1 / 2] :: real list"
  have h: "is_matrix 2 4 ?R" "(0::nat) < 2" "length ?w = 2" "(2::nat) \<le> 4"
    by (simp_all add: is_matrix_def)
  have pr: "portfolio_returns ?R ?w = Inr [3 / 200, - 1 / 200, 1 / 100, 1 / 100]"
    by (simp add: portfolio_returns_def dot_vec_mat_def shape0_def shape1_def upt_rec)
  from portfolio_volatility_sample_variance [OF h] pr
  have "portfolio_volatility ?R ?w
        = Inr (Finite (sample_variance [3 / 200, - 1 / 200, 1 / 100, 1 / 100]))"
    by auto
  also have "sample_variance [3 / 200, - 1 / 200, 1 / 100, 1 / 100 :: real] = 3 / 40000"
    by (simp add: sample_variance_def power2_eq_square)
  finally show ?thesis using h pr by simp
qed

text \<open>
  C7. \<open>sharpe_ratio\<close> divides without a guard. For \<open>N\<close> weights, an \<open>N\<close> by \<open>T\<close> matrix
  of asset returns with at least one asset and two columns, and a series of portfolio
  returns that is not empty, the volatility is a real number that is not negative;
  when it is not zero the result is the mean of the portfolio returns less the risk
  free rate, divided by the square root of the volatility; when it is zero the call
  still returns, and its value is \<open>nan\<close> or an infinity.
\<close>

theorem sharpe_ratio_unguarded:
  assumes "is_matrix N T asset_returns" and "0 < N" and "length weights = N" and "2 \<le> T"
    and "port_returns \<noteq> []"
  shows "\<exists>v. portfolio_volatility asset_returns weights = Inr (Finite v) \<and> 0 \<le> v
           \<and> (v \<noteq> 0 \<longrightarrow>
                 sharpe_ratio port_returns risk_free_rate asset_returns weights
                 = Inr (Finite ((sum_list port_returns / real (length port_returns)
                                   - risk_free_rate) / sqrt v)))
           \<and> (v = 0 \<longrightarrow>
                 sharpe_ratio port_returns risk_free_rate asset_returns weights
                 = Inr (if sum_list port_returns / real (length port_returns) = risk_free_rate
                        then NaN
                        else if sum_list port_returns / real (length port_returns) < risk_free_rate
                        then NegInf else PosInf))"
proof -
  let ?pr = "map (\<lambda>t. \<Sum>i<N. weights ! i * asset_returns ! i ! t) [0..<T]"
  let ?v = "sample_variance ?pr"
  let ?x = "sum_list port_returns / real (length port_returns) - risk_free_rate"
  have vol: "portfolio_volatility asset_returns weights = Inr (Finite ?v)"
    by (rule portfolio_volatility_variance [OF assms(1,2,3,4)])
  have nonneg: "0 \<le> ?v"
    using assms(4) by (intro sample_variance_nonneg) simp
  have sr: "sharpe_ratio port_returns risk_free_rate asset_returns weights
            = Inr (np_div (Finite ?x) (Finite (sqrt ?v)))"
    using assms(5) nonneg
    by (simp add: sharpe_ratio_def vol Let_def np_mean_def np_sub_def)
  have pos: "sharpe_ratio port_returns risk_free_rate asset_returns weights
             = Inr (Finite (?x / sqrt ?v))" if "?v \<noteq> 0"
    using that unfolding sr by simp
  have zero: "sharpe_ratio port_returns risk_free_rate asset_returns weights
              = Inr (if sum_list port_returns / real (length port_returns) = risk_free_rate
                     then NaN
                     else if sum_list port_returns / real (length port_returns) < risk_free_rate
                     then NegInf else PosInf)" if "?v = 0"
    unfolding sr that by (simp add: np_inf_def)
  from vol nonneg pos zero show ?thesis by blast
qed

theorem sharpe_ratio_unguarded_witness:
  "is_matrix 2 4 [[1 / 100, - 2 / 100, 3 / 100, 0], [2 / 100, 1 / 100, - 1 / 100, 2 / 100]]
   \<and> (0::nat) < 2 \<and> length [1 / 2, 1 / 2 :: real] = 2 \<and> (2::nat) \<le> 4
   \<and> [3 / 200, - 1 / 200, 1 / 100, 1 / 100] \<noteq> ([] :: real list)
   \<and> sharpe_ratio [3 / 200, - 1 / 200, 1 / 100, 1 / 100] (1 / 50)
        [[1 / 100, - 2 / 100, 3 / 100, 0], [2 / 100, 1 / 100, - 1 / 100, 2 / 100]] [1 / 2, 1 / 2]
      = Inr (Finite ((3 / 400 - 1 / 50) / sqrt (3 / 40000)))"
proof -
  let ?R = "[[1 / 100, - 2 / 100, 3 / 100, 0], [2 / 100, 1 / 100, - 1 / 100, 2 / 100]] :: real list list"
  let ?w = "[1 / 2, 1 / 2] :: real list"
  let ?pr = "[3 / 200, - 1 / 200, 1 / 100, 1 / 100] :: real list"
  have h: "is_matrix 2 4 ?R" "(0::nat) < 2" "length ?w = 2" "(2::nat) \<le> 4" "?pr \<noteq> []"
    by (simp_all add: is_matrix_def)
  have vol: "portfolio_volatility ?R ?w = Inr (Finite (3 / 40000))"
    by (simp add: portfolio_volatility_def Let_def dot_vec_mat_def dot_vec_vec_def np_cov_def
        shape0_def shape1_def upt_rec)
  from sharpe_ratio_unguarded [OF h, of "1 / 50"] obtain v where
    v: "portfolio_volatility ?R ?w = Inr (Finite v)"
    and s: "v \<noteq> 0 \<longrightarrow> sharpe_ratio ?pr (1 / 50) ?R ?w
              = Inr (Finite ((sum_list ?pr / real (length ?pr) - 1 / 50) / sqrt v))"
    by blast
  from v vol have "v = 3 / 40000" by simp
  with s have "sharpe_ratio ?pr (1 / 50) ?R ?w = Inr (Finite ((3 / 400 - 1 / 50) / sqrt (3 / 40000)))"
    by simp
  with h show ?thesis by blast
qed

text \<open>
  Two assets with constant returns, equal weights: the volatility is exactly zero, the
  mean 0.015 of the portfolio returns is below the risk free rate 0.02, and the call
  returns minus infinity; no error is reported.
\<close>

theorem sharpe_ratio_zero_volatility:
  "sharpe_ratio [3 / 200, 3 / 200] (1 / 50) [[1 / 100, 1 / 100], [1 / 50, 1 / 50]] [1 / 2, 1 / 2]
   = Inr NegInf"
  by (simp add: sharpe_ratio_def portfolio_volatility_def Let_def dot_vec_mat_def dot_vec_vec_def
      np_cov_def shape0_def shape1_def upt_rec np_mean_def np_sub_def np_inf_def)

text \<open>
  C8. \<open>risk_metrics\<close> rejects no number of degrees of freedom. For \<open>N\<close> weights and an
  \<open>N\<close> by \<open>T\<close> matrix of returns with at least one asset and two columns it returns its
  nine numbers for every \<open>d\<close>. When \<open>d\<close> is not 1, \<open>alpha\<close> is not zero and scipy's t
  quantile \<open>q\<close> at \<open>alpha\<close> and t density \<open>p\<close> at \<open>q\<close> are real numbers, the t Expected
  Shortfall is \<open>p * sigma * (d + q\<^sup>2) / (alpha * (d - 1)) - mu\<close>, with \<open>sigma\<close> the square
  root of the volatility and \<open>mu\<close> the mean of the portfolio returns. When \<open>d\<close> is 1 the
  division by zero is carried out and the t Expected Shortfall is \<open>nan\<close> or an infinity.
\<close>

theorem risk_metrics_no_rejection:
  assumes "is_matrix N T returns" and "0 < N" and "length weights = N" and "2 \<le> T"
  shows "\<exists>v pr sigma mu a ae ta tae es t_dist_es.
           portfolio_volatility returns weights = Inr (Finite v)
           \<and> portfolio_returns returns weights = Inr pr
           \<and> sigma = Finite (sqrt v) \<and> mu = Finite (sum_list pr / real T)
           \<and> risk_metrics sp returns weights var_p alpha d
               = Inr (Finite v, sigma, mu, a, ae, ta, tae, es, t_dist_es)
           \<and> (\<forall>p q. d \<noteq> 1 \<and> alpha \<noteq> 0 \<and> t_ppf sp d alpha = Finite q
                  \<and> t_pdf sp d (Finite q) = Finite p
                \<longrightarrow> t_dist_es
                     = Finite ((p * sqrt v * (real_of_int d + q\<^sup>2))
                                 / (alpha * (real_of_int d - 1)) - sum_list pr / real T))
           \<and> (d = 1 \<longrightarrow> (\<forall>x. t_dist_es \<noteq> Finite x))"
proof -
  let ?pr = "map (\<lambda>t. \<Sum>i<N. weights ! i * returns ! i ! t) [0..<T]"
  let ?v = "sample_variance ?pr"
  let ?mu = "Finite (sum_list ?pr / real T)"
  let ?sigma = "Finite (sqrt ?v)"
  let ?num = "np_mul (np_mul (t_pdf sp d (t_ppf sp d alpha)) ?sigma)
                (np_add (Finite (real_of_int d)) (np_mul (t_ppf sp d alpha) (t_ppf sp d alpha)))"
  let ?tes = "np_sub (np_div ?num (Finite (alpha * real_of_int (d - 1)))) ?mu"
  have vol: "portfolio_volatility returns weights = Inr (Finite ?v)"
    by (rule portfolio_volatility_variance [OF assms])
  have pr: "portfolio_returns returns weights = Inr ?pr"
    by (rule portfolio_returns_eq [OF assms(1,2,3)])
  have nonneg: "0 \<le> ?v"
    using assms(4) by (intro sample_variance_nonneg) simp
  have sh: "shape1 returns = T" using is_matrix_shape [OF assms(1,2)] by simp
  have Tnz: "real T \<noteq> 0" using assms(4) by simp
  have sig: "np_sqrt (Finite ?v) = ?sigma" using nonneg by simp
  have mu: "np_div (Finite (sum_list ?pr)) (Finite (real T)) = ?mu" using Tnz by simp
  have res: "risk_metrics sp returns weights var_p alpha d
             = Inr (Finite ?v, ?sigma, ?mu,
                    fst (quad_norm_pdf sp ?mu ?sigma var_p), snd (quad_norm_pdf sp ?mu ?sigma var_p),
                    fst (quad_t_pdf sp d var_p), snd (quad_t_pdf sp d var_p),
                    np_sub (np_div (np_mul (norm_pdf sp (norm_ppf sp alpha)) ?sigma) (Finite alpha)) ?mu,
                    ?tes)"
    by (simp only: risk_metrics_def vol pr sum.case Let_def sig sh mu)
  have formula: "?tes = Finite ((p * sqrt ?v * (real_of_int d + q\<^sup>2))
                                 / (alpha * (real_of_int d - 1)) - sum_list ?pr / real T)"
    if "d \<noteq> 1 \<and> alpha \<noteq> 0 \<and> t_ppf sp d alpha = Finite q \<and> t_pdf sp d (Finite q) = Finite p"
    for p q
    using that by (simp add: np_sub_def power2_eq_square)
  have degenerate: "?tes \<noteq> Finite x" if "d = 1" for x
  proof -
    have "np_div ?num (Finite (alpha * real_of_int (d - 1))) \<noteq> Finite y" for y
      using that np_div_zero_not_finite [of ?num y] by simp
    then show ?thesis by (rule np_sub_not_finite)
  qed
  from vol pr res formula degenerate show ?thesis by blast
qed

theorem risk_metrics_no_rejection_witness:
  "is_matrix 2 4 [[1 / 100, - 2 / 100, 3 / 100, 0], [2 / 100, 1 / 100, - 1 / 100, 2 / 100]]
   \<and> (0::nat) < 2 \<and> length [1 / 2, 1 / 2 :: real] = 2 \<and> (2::nat) \<le> 4
   \<and> (\<exists>a ae ta tae es.
         risk_metrics
           \<lparr> quad_norm_pdf = (\<lambda>mu sigma y. (NaN, NaN)), quad_t_pdf = (\<lambda>d y. (NaN, NaN)),
             norm_pdf = (\<lambda>y. NaN), norm_ppf = (\<lambda>y. NaN),
             t_pdf = (\<lambda>d y. Finite (507 / 10000)), t_ppf = (\<lambda>d y. Finite (- 403 / 200)) \<rparr>
           [[1 / 100, - 2 / 100, 3 / 100, 0], [2 / 100, 1 / 100, - 1 / 100, 2 / 100]] [1 / 2, 1 / 2]
           (- 9 / 100) (1 / 20) 5
         = Inr (Finite (3 / 40000), Finite (sqrt (3 / 40000)), Finite (3 / 400), a, ae, ta, tae, es,
                Finite ((507 / 10000 * sqrt (3 / 40000) * (5 + (- 403 / 200)\<^sup>2)) / (1 / 20 * (5 - 1))
                        - 3 / 400)))"
proof -
  let ?R = "[[1 / 100, - 2 / 100, 3 / 100, 0], [2 / 100, 1 / 100, - 1 / 100, 2 / 100]] :: real list list"
  let ?w = "[1 / 2, 1 / 2] :: real list"
  let ?sp = "\<lparr> quad_norm_pdf = (\<lambda>mu sigma y. (NaN, NaN)), quad_t_pdf = (\<lambda>d y. (NaN, NaN)),
              norm_pdf = (\<lambda>y. NaN), norm_ppf = (\<lambda>y. NaN),
              t_pdf = (\<lambda>d y. Finite (507 / 10000)), t_ppf = (\<lambda>d y. Finite (- 403 / 200)) \<rparr>"
  have h: "is_matrix 2 4 ?R" "(0::nat) < 2" "length ?w = 2" "(2::nat) \<le> 4"
    by (simp_all add: is_matrix_def)
  have vol: "portfolio_volatility ?R ?w = Inr (Finite (3 / 40000))"
    by (simp add: portfolio_volatility_def Let_def dot_vec_mat_def dot_vec_vec_def np_cov_def
        shape0_def shape1_def upt_rec)
  have prs: "portfolio_returns ?R ?w = Inr [3 / 200, - 1 / 200, 1 / 100, 1 / 100]"
    by (simp add: portfolio_returns_def dot_vec_mat_def shape0_def shape1_def upt_rec)
  from risk_metrics_no_rejection [OF h, of ?sp "- 9 / 100" "1 / 20" 5]
  obtain v pr sigma mu a ae ta tae es t_dist_es where
    v: "portfolio_volatility ?R ?w = Inr (Finite v)"
    and pr: "portfolio_returns ?R ?w = Inr pr"
    and sm: "sigma = Finite (sqrt v)" "mu = Finite (sum_list pr / real 4)"
    and res: "risk_metrics ?sp ?R ?w (- 9 / 100) (1 / 20) 5
              = Inr (Finite v, sigma, mu, a, ae, ta, tae, es, t_dist_es)"
    and f: "\<forall>p q. (5::int) \<noteq> 1 \<and> (1 / 20 :: real) \<noteq> 0 \<and> t_ppf ?sp 5 (1 / 20) = Finite q
                  \<and> t_pdf ?sp 5 (Finite q) = Finite p
                \<longrightarrow> t_dist_es
                     = Finite ((p * sqrt v * (real_of_int 5 + q\<^sup>2))
                                 / (1 / 20 * (real_of_int 5 - 1)) - sum_list pr / real 4)"
    by blast
  have veq: "v = 3 / 40000" using v vol by simp
  have preq: "pr = [3 / 200, - 1 / 200, 1 / 100, 1 / 100]" using pr prs by simp
  have mueq: "sum_list pr / real 4 = 3 / 400" unfolding preq by simp
  from f [THEN spec, of "507 / 10000", THEN spec, of "- 403 / 200"] have "t_dist_es
        = Finite ((507 / 10000 * sqrt v * (real_of_int 5 + (- 403 / 200)\<^sup>2))
                    / (1 / 20 * (real_of_int 5 - 1)) - sum_list pr / real 4)"
    by simp
  then have tes: "t_dist_es
        = Finite ((507 / 10000 * sqrt (3 / 40000) * (5 + (- 403 / 200)\<^sup>2)) / (1 / 20 * (5 - 1))
                  - 3 / 400)"
    unfolding veq mueq by simp
  have "risk_metrics ?sp ?R ?w (- 9 / 100) (1 / 20) 5
        = Inr (Finite (3 / 40000), Finite (sqrt (3 / 40000)), Finite (3 / 400), a, ae, ta, tae, es,
               Finite ((507 / 10000 * sqrt (3 / 40000) * (5 + (- 403 / 200)\<^sup>2)) / (1 / 20 * (5 - 1))
                       - 3 / 400))"
    using res unfolding sm veq mueq tes by simp
  with h show ?thesis by blast
qed

text \<open>
  With one degree of freedom, whatever scipy returns, the call on the two assets of the
  example is not rejected: it returns its nine numbers.
\<close>

theorem risk_metrics_one_degree_of_freedom:
  "\<forall>sp. \<not> isl (risk_metrics sp
        [[1 / 100, - 2 / 100, 3 / 100, 0], [2 / 100, 1 / 100, - 1 / 100, 2 / 100]] [1 / 2, 1 / 2]
        (- 9 / 100) (1 / 20) 1)"
  by (simp add: risk_metrics_def portfolio_volatility_def portfolio_returns_def Let_def
      dot_vec_mat_def dot_vec_vec_def np_cov_def shape0_def shape1_def upt_rec)

end
